theory Spec2Isabelle
  imports Main "HOL-Library.Word"
begin

section \<open>JavaScript values seen by \<open>common.ts\<close>\<close>

text \<open>
  The converter walks values that live in the caller's heap, where composite values have an
  identity (the visiting set and the classifier's cache are keyed by it) and may be cyclic.
  A value is therefore either a primitive or a reference to a heap cell. The carrier \<open>'n\<close>
  of numbers is left open: the code only copies numbers, it never computes with them.
\<close>

type_synonym addr = nat
type_synonym byte = "8 word"

datatype 'n jsval =
    JUndefined
  | JNull
  | JBool bool
  | JNumber 'n
  | JString string
  | JBigInt int
  | JSymbol nat
  | JFunction nat
  | JObject addr

fun typeof :: "'n jsval \<Rightarrow> string" where
  "typeof JUndefined = ''undefined''"
| "typeof JNull = ''object''"
| "typeof (JBool b) = ''boolean''"
| "typeof (JNumber n) = ''number''"
| "typeof (JString s) = ''string''"
| "typeof (JBigInt i) = ''bigint''"
| "typeof (JSymbol s) = ''symbol''"
| "typeof (JFunction f) = ''function''"
| "typeof (JObject a) = ''object''"

text \<open>
  What the code throws: a bare string (\<open>throw '...'\<close>), an \<open>Error\<close> with a message
  (\<open>throw new Error(...)\<close>), a \<open>TypeError\<close> raised by the runtime (a property read on
  \<open>undefined\<close>, a call of something that is not a function), and the \<open>RangeError\<close> of an
  exhausted call stack.
\<close>

datatype exn = ThrowString string | ThrowError string | TypeError | RangeError

text \<open>
  A heap cell. \<open>shape\<close> is what \<open>Array.isArray\<close> and \<open>Buffer.isBuffer\<close> see, with the
  elements of a (dense) array and the bytes of a buffer. \<open>proto\<close> is what
  \<open>Object.getPrototypeOf\<close> returns, as far as \<open>isPlainObject\<close> inspects it: \<open>null\<close>,
  \<open>Object.prototype\<close>, or another object, given by its own \<open>constructor\<close> property if it
  has one. For a constructor that is a function, \<open>instanceof_self\<close> is the outcome of
  \<open>constr instanceof constr\<close> (\<open>None\<close> when the operator throws, as it does for a function
  without a \<open>prototype\<close> object) and \<open>class_string\<close> the result of
  \<open>Object.prototype.toString.call(constr)\<close>. \<open>own_props\<close> are the own enumerable
  properties in \<open>for ... in\<close> order, \<open>inherited_keys\<close> the enumerable keys of the
  prototype chain, and \<open>string_form\<close> the outcome of \<open>String(value)\<close>.
\<close>

datatype 'n shape = ArrayShape "'n jsval list" | BufferShape "byte list" | OrdinaryShape

datatype ctor = NotCallable | Callable (instanceof_self: "bool option") (class_string: string)

datatype proto = NullProto | ObjectPrototype | OtherProto "ctor option"

record 'n hobj =
  shape :: "'n shape"
  proto :: proto
  own_props :: "(string \<times> 'n jsval) list"
  inherited_keys :: "string list"
  string_form :: "exn + string"

type_synonym 'n heap = "addr \<Rightarrow> 'n hobj"

text \<open>
  Objects that the code allocates itself (the tagged values, the decoded objects and arrays)
  are never compared by identity and never changed once they are linked into a result, so
  they are represented by their contents: \<open>Obj\<close> lists the own enumerable properties in
  insertion order, \<open>Arr\<close> the elements. \<open>Val\<close> embeds a value taken over as it is: a
  primitive, or a reference into the caller's heap.
\<close>

datatype 'n tree = Val "'n jsval" | Arr "'n tree list" | Obj "(string \<times> 'n tree) list"

text \<open>
  The assignment \<open>o[prop] = v\<close> on such an object. An existing key keeps its place, a new
  key is appended. The key \<open>__proto__\<close> is the accessor inherited from
  \<open>Object.prototype\<close>: assigning to it never creates an own property.
\<close>

fun upsert :: "string \<Rightarrow> 'v \<Rightarrow> (string \<times> 'v) list \<Rightarrow> (string \<times> 'v) list" where
  "upsert k v [] = [(k, v)]"
| "upsert k v ((k', v') # ps) = (if k = k' then (k, v) # ps else (k', v') # upsert k v ps)"

definition assign :: "(string \<times> 'n tree) list \<Rightarrow> string \<Rightarrow> 'n tree \<Rightarrow> (string \<times> 'n tree) list" where
  "assign flds prop v = (if prop = ''__proto__'' then flds else upsert prop v flds)"

section \<open>Program state and exceptions\<close>

text \<open>
  The state the encoder works on: the \<open>seenObjects\<close> set of the converter instance and the
  module-level \<open>_isPlainObjectCache\<close>, a \<open>WeakMap\<close> keyed by object identity. A step
  returns the value it produced or the exception it threw, together with the state it left
  behind. \<open>and_then\<close> runs a continuation after a step that did not throw; a throw skips
  everything that would have followed it in the function body.
\<close>

record enc_state =
  seenObjects :: "addr set"
  plainCache :: "addr \<Rightarrow> bool option"

text \<open>A state in which no conversion is under way and nothing has been classified yet.\<close>

definition initial_state :: enc_state where
  "initial_state = \<lparr>seenObjects = {}, plainCache = (\<lambda>_. None)\<rparr>"

definition and_then :: "(exn + 'a) \<times> 's \<Rightarrow> ('a \<Rightarrow> 's \<Rightarrow> (exn + 'b) \<times> 's) \<Rightarrow> (exn + 'b) \<times> 's" where
  "and_then m f = (case m of (Inl e, s) \<Rightarrow> (Inl e, s) | (Inr v, s) \<Rightarrow> f v s)"

section \<open>The plain-object classifier\<close>

text \<open>
  The test on the constructor found on the prototype:
  \<open>typeof constr == 'function' && constr instanceof constr &&
  Object.prototype.toString.call(constr) == '[object Function]'\<close>, evaluated left to right.
\<close>

fun constructor_test :: "ctor \<Rightarrow> exn + bool" where
  "constructor_test NotCallable = Inr False"
| "constructor_test (Callable None cs) = Inl TypeError"
| "constructor_test (Callable (Some False) cs) = Inr False"
| "constructor_test (Callable (Some True) cs) = Inr (cs = ''[object Function]'')"

definition remember :: "addr \<Rightarrow> bool \<Rightarrow> enc_state \<Rightarrow> (exn + bool) \<times> enc_state" where
  "remember mixed b st = (Inr b, st\<lparr>plainCache := (plainCache st)(mixed \<mapsto> b)\<rparr>)"

definition isPlainObject :: "'n heap \<Rightarrow> addr \<Rightarrow> enc_state \<Rightarrow> (exn + bool) \<times> enc_state" where
  "isPlainObject h mixed st =
     (case plainCache st mixed of
        Some b \<Rightarrow> (Inr b, st)
      | None \<Rightarrow>
          (case proto (h mixed) of
             NullProto \<Rightarrow> remember mixed True st
           | ObjectPrototype \<Rightarrow> remember mixed True st
           | OtherProto None \<Rightarrow> remember mixed False st
           | OtherProto (Some constr) \<Rightarrow>
               and_then (constructor_test constr, st) (\<lambda>b st'. remember mixed b st')))"

section \<open>The encoder\<close>

text \<open>
  \<open>ObjectToStructConverterConfig\<close> has two optional flags. The constructor turns each into
  a boolean by \<open>options.flag === true\<close>, so a missing flag and a missing options object
  both mean \<open>false\<close>, and starts with an empty \<open>seenObjects\<close>.
\<close>

record ObjectToStructConverterConfig =
  opt_removeCircular :: "bool option"
  opt_stringify :: "bool option"

record config =
  removeCircular :: bool
  stringify :: bool

definition constructor :: "ObjectToStructConverterConfig option \<Rightarrow> config" where
  "constructor options =
     (case options of
        None \<Rightarrow> \<lparr>removeCircular = False, stringify = False\<rparr>
      | Some opts \<Rightarrow>
          \<lparr>removeCircular = (opt_removeCircular opts = Some True),
           stringify = (opt_stringify opts = Some True)\<rparr>)"

definition new_instance :: "enc_state \<Rightarrow> enc_state" where
  "new_instance st = st\<lparr>seenObjects := {}\<rparr>"

text \<open>
  \<open>for (const prop in obj)\<close> visits the own enumerable keys and then the inherited ones
  that no own property shadows; \<open>Object.prototype.hasOwnProperty.call(obj, prop)\<close> and
  \<open>obj[prop]\<close> then look at the own properties.
\<close>

definition for_in_keys :: "'n hobj \<Rightarrow> string list" where
  "for_in_keys ob = map fst (own_props ob) @ filter (\<lambda>k. k \<notin> fst ` set (own_props ob)) (inherited_keys ob)"

definition hasOwnProperty :: "'n hobj \<Rightarrow> string \<Rightarrow> bool" where
  "hasOwnProperty ob prop = (prop \<in> fst ` set (own_props ob))"

definition get_own :: "'n hobj \<Rightarrow> string \<Rightarrow> 'n jsval" where
  "get_own ob prop = (case map_of (own_props ob) prop of Some v \<Rightarrow> v | None \<Rightarrow> JUndefined)"

definition circular_message :: string where
  "circular_message = ''This object contains a circular reference. To automatically remove it, set the `removeCircular` option to true.''"

text \<open>
  \<open>convert\<close> and \<open>encodeValue_\<close> call each other along heap references, and an array that
  contains itself is never caught by \<open>seenObjects\<close>, so the recursion need not end. The
  first argument is the number of nested calls the stack still has room for; when it is
  used up the call throws \<open>RangeError\<close>. \<open>convert_loop\<close> is the \<open>for ... in\<close> loop of
  \<open>convert\<close>, \<open>encode_elements\<close> the \<open>value.map(this.encodeValue_.bind(this))\<close> of the
  array case. A value that is neither caught by the first \<open>switch\<close> nor by a case of the
  second one (a function, a symbol, a bigint) reaches the end of the function body, which
  returns \<open>undefined\<close>.
\<close>

function (sequential)
    convert :: "nat \<Rightarrow> config \<Rightarrow> ('n::zero) heap \<Rightarrow> addr \<Rightarrow> enc_state \<Rightarrow> (exn + 'n tree) \<times> enc_state"
and convert_loop :: "nat \<Rightarrow> config \<Rightarrow> 'n heap \<Rightarrow> addr \<Rightarrow> string list \<Rightarrow> (string \<times> 'n tree) list \<Rightarrow> enc_state \<Rightarrow> (exn + (string \<times> 'n tree) list) \<times> enc_state"
and encodeValue :: "nat \<Rightarrow> config \<Rightarrow> 'n heap \<Rightarrow> 'n jsval \<Rightarrow> enc_state \<Rightarrow> (exn + 'n tree) \<times> enc_state"
and encode_elements :: "nat \<Rightarrow> config \<Rightarrow> 'n heap \<Rightarrow> 'n jsval list \<Rightarrow> enc_state \<Rightarrow> (exn + 'n tree list) \<times> enc_state"
where
  "convert 0 cfg h obj st = (Inl RangeError, st)"
| "convert (Suc d) cfg h obj st =
     and_then (convert_loop d cfg h obj (for_in_keys (h obj)) [] (st\<lparr>seenObjects := insert obj (seenObjects st)\<rparr>))
       (\<lambda>flds st'. (Inr (Obj [(''fields'', Obj flds)]), st'\<lparr>seenObjects := seenObjects st' - {obj}\<rparr>))"
| "convert_loop d cfg h obj [] flds st = (Inr flds, st)"
| "convert_loop d cfg h obj (prop # props) flds st =
     (if hasOwnProperty (h obj) prop then
        (if get_own (h obj) prop = JUndefined then convert_loop d cfg h obj props flds st
         else
           and_then (encodeValue d cfg h (get_own (h obj) prop) st)
             (\<lambda>v st'. convert_loop d cfg h obj props (assign flds prop v) st'))
      else convert_loop d cfg h obj props flds st)"
| "encodeValue 0 cfg h v st = (Inl RangeError, st)"
| "encodeValue (Suc d) cfg h v st =
     (case v of
        JUndefined \<Rightarrow> (Inl (ThrowString ''Value of type undefined not recognized.''), st)
      | JNull \<Rightarrow> (Inr (Obj [(''nullValue'', Val (JNumber 0))]), st)
      | JBool b \<Rightarrow> (Inr (Obj [(''boolValue'', Val v)]), st)
      | JNumber n \<Rightarrow> (Inr (Obj [(''numberValue'', Val v)]), st)
      | JString s \<Rightarrow> (Inr (Obj [(''stringValue'', Val v)]), st)
      | JObject a \<Rightarrow>
          (case shape (h a) of
             ArrayShape xs \<Rightarrow>
               and_then (encode_elements d cfg h xs st)
                 (\<lambda>vs st'. (Inr (Obj [(''listValue'', Obj [(''values'', Arr vs)])]), st'))
           | BufferShape bs \<Rightarrow> (Inr (Obj [(''blobValue'', Val v)]), st)
           | OrdinaryShape \<Rightarrow>
               and_then (isPlainObject h a st)
                 (\<lambda>plain st1.
                    if plain then
                      (if a \<in> seenObjects st1 then
                         (if \<not> removeCircular cfg then (Inl (ThrowError circular_message), st1)
                          else (Inr (Obj [(''stringValue'', Val (JString ''[Circular]''))]), st1))
                       else
                         and_then (convert d cfg h a st1)
                           (\<lambda>s st'. (Inr (Obj [(''structValue'', s)]), st')))
                    else
                      (if \<not> stringify cfg then
                         (Inl (ThrowError (''Value of type '' @ typeof v @ '' not recognized.'')), st1)
                       else
                         and_then (string_form (h a), st1)
                           (\<lambda>s st'. (Inr (Obj [(''stringValue'', Val (JString s))]), st')))))
      | _ \<Rightarrow> (Inr (Val JUndefined), st))"
| "encode_elements d cfg h [] st = (Inr [], st)"
| "encode_elements d cfg h (x # xs) st =
     and_then (encodeValue d cfg h x st)
       (\<lambda>v st'. and_then (encode_elements d cfg h xs st') (\<lambda>vs st''. (Inr (v # vs), st'')))"
  by pat_completeness auto

termination
  by (relation "inv_image (less_than <*lex*> less_than <*lex*> less_than)
        (\<lambda>x. case x of
           Inl (Inl (d, cfg, h, obj, st)) \<Rightarrow> (d, 0::nat, 0::nat)
         | Inl (Inr (d, cfg, h, obj, props, flds, st)) \<Rightarrow> (d, 2, length props)
         | Inr (Inl (d, cfg, h, v, st)) \<Rightarrow> (d, 1, 0)
         | Inr (Inr (d, cfg, h, xs, st)) \<Rightarrow> (d, 2, length xs))") auto

text \<open>
  \<open>objToStruct(obj, options)\<close> is \<open>new ObjectToStructConverter(options).convert(obj)\<close>.
\<close>

definition objToStruct :: "nat \<Rightarrow> ('n::zero) heap \<Rightarrow> addr \<Rightarrow> ObjectToStructConverterConfig \<Rightarrow> enc_state \<Rightarrow> (exn + 'n tree) \<times> enc_state" where
  "objToStruct d h obj options st = convert d (constructor (Some options)) h obj (new_instance st)"

section \<open>The decoder\<close>

text \<open>
  The decoder reads a message that is given as a tree. A property read \<open>value[key]\<close> throws
  on \<open>undefined\<close> and \<open>null\<close> and yields \<open>undefined\<close> for a key the value does not
  have. The enumerable own properties of an array are its indices, those of a string its
  positions, each holding a one-character string. A reference inside a message stands for
  a payload (such as the buffer of a \<open>blobValue\<close>), not for a message node: it is taken to
  have none of the properties the decoder asks for. Properties inherited from
  \<open>Object.prototype\<close> (a \<open>kind\<close> of \<open>'toString'\<close>, say) are not part of the model.
\<close>

definition digit :: "nat \<Rightarrow> char" where
  "digit n = char_of (48 + n)"

function decimal :: "nat \<Rightarrow> string" where
  "decimal n = (if n < 10 then [digit n] else decimal (n div 10) @ [digit (n mod 10)])"
  by pat_completeness auto

termination
  by (relation "measure id") auto

declare decimal.simps [simp del]

fun enumerable :: "'n tree \<Rightarrow> (string \<times> 'n tree) list" where
  "enumerable (Obj ps) = ps"
| "enumerable (Arr xs) = zip (map decimal [0..<length xs]) xs"
| "enumerable (Val (JString s)) = zip (map decimal [0..<length s]) (map (\<lambda>c. Val (JString [c])) s)"
| "enumerable (Val v) = []"

fun get :: "'n tree \<Rightarrow> string \<Rightarrow> exn + 'n tree" where
  "get (Val JUndefined) key = Inl TypeError"
| "get (Val JNull) key = Inl TypeError"
| "get v key = Inr (case map_of (enumerable v) key of Some x \<Rightarrow> x | None \<Rightarrow> Val JUndefined)"

text \<open>
  \<open>value[value.kind]\<close> with a \<open>kind\<close> that is not a string: the key is the string form of
  the \<open>kind\<close>. The string forms of numbers, bigints, symbols, functions and objects are
  not modelled; such a \<open>kind\<close> is taken to name no property.
\<close>

fun property_key :: "'n tree \<Rightarrow> string option" where
  "property_key (Val (JString s)) = Some s"
| "property_key (Val JUndefined) = Some ''undefined''"
| "property_key (Val JNull) = Some ''null''"
| "property_key (Val (JBool b)) = Some (if b then ''true'' else ''false'')"
| "property_key v = None"

definition get_computed :: "'n tree \<Rightarrow> 'n tree \<Rightarrow> exn + 'n tree" where
  "get_computed v k =
     (case property_key k of
        Some key \<Rightarrow> get v key
      | None \<Rightarrow> (case get v [] of Inl e \<Rightarrow> Inl e | Inr x \<Rightarrow> Inr (Val JUndefined)))"

text \<open>
  \<open>struct.fields.hasOwnProperty(prop)\<close> looks the method up on the \<open>fields\<close> object
  itself. A field that is named \<open>hasOwnProperty\<close> shadows the inherited method, and
  calling a message value throws. Without such a field the call answers \<open>true\<close> for
  every key the loop visits.
\<close>

definition shadows_hasOwnProperty :: "'n tree \<Rightarrow> bool" where
  "shadows_hasOwnProperty flds = (case flds of Obj ps \<Rightarrow> ''hasOwnProperty'' \<in> fst ` set ps | _ \<Rightarrow> False)"

text \<open>A measure for the recursion of the decoder: the number of arrays and objects in a tree.\<close>

fun weight :: "'n tree \<Rightarrow> nat" where
  "weight (Val v) = 0"
| "weight (Arr xs) = Suc (sum_list (map weight xs))"
| "weight (Obj ps) = Suc (sum_list (map (\<lambda>p. weight (snd p)) ps))"

lemma weight_member: "x \<in> set xs \<Longrightarrow> weight x \<le> sum_list (map weight xs)"
  by (induction xs) auto

lemma weight_member_props: "(k, x) \<in> set ps \<Longrightarrow> weight x \<le> sum_list (map (\<lambda>p. weight (snd p)) ps)"
  by (induction ps) auto

lemma get_cases: "get v k = Inr x \<Longrightarrow> x \<in> snd ` set (enumerable v) \<or> x = Val JUndefined"
  by (cases "(v, k)" rule: get.cases) (auto split: option.splits dest!: map_of_SomeD intro: rev_image_eqI)

lemma enumerable_child:
  assumes "(k, x) \<in> set (enumerable v)"
  shows "(case v of Val w \<Rightarrow> \<exists>c. x = Val (JString [c]) | _ \<Rightarrow> weight x < weight v)"
proof (cases v)
  case (Val w)
  with assms show ?thesis by (cases w) (auto dest!: set_zip_rightD)
next
  case (Arr xs)
  with assms show ?thesis by (auto dest!: set_zip_rightD weight_member simp: less_Suc_eq_le)
next
  case (Obj ps)
  with assms show ?thesis by (auto dest!: weight_member_props simp: less_Suc_eq_le)
qed

lemma get_child:
  assumes "get v k = Inr x"
  shows "x = Val JUndefined \<or> (case v of Val w \<Rightarrow> \<exists>c. x = Val (JString [c]) | _ \<Rightarrow> weight x < weight v)"
proof -
  from assms have "x \<in> snd ` set (enumerable v) \<or> x = Val JUndefined" by (rule get_cases)
  then show ?thesis
  proof
    assume "x \<in> snd ` set (enumerable v)"
    then obtain k' where "(k', x) \<in> set (enumerable v)" by auto
    from enumerable_child [OF this] show ?thesis by simp
  qed simp
qed

lemma get_weight_le: "get v k = Inr x \<Longrightarrow> weight x \<le> weight v"
  using get_child [of v k x] by (cases v) auto

lemma get_weight_less:
  assumes "get v k = Inr (Val (JString s))" and "length s \<noteq> 1" and "get v k' = Inr x"
  shows "weight x < weight v"
  using get_child [OF assms(1)] get_child [OF assms(3)] assms(2) by (cases v) auto

lemma get_Arr_weight: "get v k = Inr (Arr xs) \<Longrightarrow> weight (Arr xs) < weight v"
  using get_child [of v k "Arr xs"] by (cases v) auto

text \<open>
  \<open>decode_elements\<close> is \<open>value.listValue.values.map(decodeValue)\<close>, which needs an array
  to call \<open>map\<close> on; \<open>struct_loop\<close> is the \<open>for ... in\<close> loop of \<open>structToObj\<close>.
\<close>

function (sequential)
    decodeValue :: "'n tree \<Rightarrow> exn + 'n tree"
and decode_elements :: "'n tree list \<Rightarrow> exn + 'n tree list"
and structToObj :: "'n tree \<Rightarrow> exn + 'n tree"
and struct_loop :: "'n tree \<Rightarrow> string list \<Rightarrow> (string \<times> 'n tree) list \<Rightarrow> exn + (string \<times> 'n tree) list"
where
  "decodeValue value =
     (case get value ''kind'' of
        Inl e \<Rightarrow> Inl e
      | Inr kind \<Rightarrow>
          if kind = Val (JString ''structValue'') then
            (case get value ''structValue'' of Inl e \<Rightarrow> Inl e | Inr s \<Rightarrow> structToObj s)
          else if kind = Val (JString ''nullValue'') then Inr (Val JNull)
          else if kind = Val (JString ''listValue'') then
            (case get value ''listValue'' of
               Inl e \<Rightarrow> Inl e
             | Inr lv \<Rightarrow>
                 (case get lv ''values'' of
                    Inl e \<Rightarrow> Inl e
                  | Inr (Arr xs) \<Rightarrow> (case decode_elements xs of Inl e \<Rightarrow> Inl e | Inr ys \<Rightarrow> Inr (Arr ys))
                  | Inr _ \<Rightarrow> Inl TypeError))
          else get_computed value kind)"
| "decode_elements [] = Inr []"
| "decode_elements (x # xs) =
     (case decodeValue x of
        Inl e \<Rightarrow> Inl e
      | Inr y \<Rightarrow> (case decode_elements xs of Inl e \<Rightarrow> Inl e | Inr ys \<Rightarrow> Inr (y # ys)))"
| "structToObj struct =
     (case get struct ''fields'' of
        Inl e \<Rightarrow> Inl e
      | Inr flds \<Rightarrow>
          (case struct_loop flds (map fst (enumerable flds)) [] of
             Inl e \<Rightarrow> Inl e
           | Inr convertedObject \<Rightarrow> Inr (Obj convertedObject)))"
| "struct_loop flds [] convertedObject = Inr convertedObject"
| "struct_loop flds (prop # props) convertedObject =
     (if shadows_hasOwnProperty flds then Inl TypeError
      else
        (case get flds prop of
           Inl e \<Rightarrow> Inl e
         | Inr value \<Rightarrow>
             (case decodeValue value of
                Inl e \<Rightarrow> Inl e
              | Inr x \<Rightarrow> struct_loop flds props (assign convertedObject prop x))))"
  by pat_completeness auto

termination
  apply (relation "inv_image (less_than <*lex*> less_than <*lex*> less_than)
        (\<lambda>x. case x of
           Inl (Inl v) \<Rightarrow> (weight v, 0::nat, 0::nat)
         | Inl (Inr xs) \<Rightarrow> (weight (Arr xs), 1, length xs)
         | Inr (Inl s) \<Rightarrow> (weight s, 3, 0)
         | Inr (Inr (flds, props, acc)) \<Rightarrow> (weight flds, 2, length props))")
  apply (simp_all del: get.simps enumerable.simps)
  subgoal by (intro wf_inv_image wf_lex_prod wf_less_than)
  subgoal by (erule get_weight_less) auto
  subgoal for v b ba bb x2
    using get_Arr_weight [of ba "''values''" x2] get_weight_le [of v "''listValue''" ba] by simp
  subgoal by auto
  subgoal using get_weight_le by (fastforce simp: le_less)
  subgoal using get_weight_le by (fastforce simp: le_less)
  done

declare decodeValue.simps [simp del] structToObj.simps [simp del]

section \<open>Tagged values and their \<open>kind\<close>\<close>

text \<open>
  The property names under which \<open>encodeValue_\<close> stores a payload, and the shape of a
  tagged value: an object with exactly one property, named by one of them.
\<close>

definition variants :: "string list" where
  "variants = [''nullValue'', ''boolValue'', ''numberValue'', ''stringValue'', ''listValue'',
     ''blobValue'', ''structValue'']"

fun one_variant :: "'n tree \<Rightarrow> bool" where
  "one_variant (Obj [(k, p)]) = (k \<in> set variants)"
| "one_variant r = False"

text \<open>
  \<open>decodeValue\<close> reads the tag of a value from its \<open>kind\<close> property, as in the example of
  the doc comment of \<open>structToObj\<close> (\<open>{kind: 'stringValue', stringValue: 'Stephen'}\<close>);
  \<open>encodeValue_\<close> writes no such property. The functions below are not part of
  \<open>common.ts\<close>: they add to every tagged value of an encoded struct the \<open>kind\<close> that names
  its one property, and are used to state what the decoder does with the encoder's
  output once the tags are there.
\<close>

fun value_with_kind :: "'n tree \<Rightarrow> 'n tree"
and struct_with_kind :: "'n tree \<Rightarrow> 'n tree"
and list_with_kind :: "'n tree \<Rightarrow> 'n tree"
and fields_with_kind :: "(string \<times> 'n tree) list \<Rightarrow> (string \<times> 'n tree) list"
and values_with_kind :: "'n tree list \<Rightarrow> 'n tree list"
where
  "value_with_kind (Obj [(k, p)]) =
     Obj [(''kind'', Val (JString k)),
          (k, if k = ''structValue'' then struct_with_kind p
              else if k = ''listValue'' then list_with_kind p else p)]"
| "value_with_kind v = v"
| "struct_with_kind (Obj [(f, Obj flds)]) = Obj [(f, Obj (fields_with_kind flds))]"
| "struct_with_kind s = s"
| "list_with_kind (Obj [(f, Arr xs)]) = Obj [(f, Arr (values_with_kind xs))]"
| "list_with_kind l = l"
| "fields_with_kind [] = []"
| "fields_with_kind ((k, v) # ps) = (k, value_with_kind v) # fields_with_kind ps"
| "values_with_kind [] = []"
| "values_with_kind (x # xs) = value_with_kind x # values_with_kind xs"

section \<open>Plain data\<close>

text \<open>
  The cache agrees with the heap when each of its entries is what a first call of
  \<open>isPlainObject\<close> would answer on this heap.
\<close>

definition cache_agrees :: "'n heap \<Rightarrow> enc_state \<Rightarrow> bool" where
  "cache_agrees h st = (\<forall>a b. plainCache st a = Some b \<longrightarrow> fst (isPlainObject h a initial_state) = Inr b)"

text \<open>
  Plain data: \<open>plain_data h S v t\<close> holds when the value \<open>v\<close> in the heap \<open>h\<close> is built from
  \<open>null\<close>, booleans, numbers, strings, buffers, arrays and plain objects only, and \<open>t\<close> is
  its unfolding into a tree: an array becomes the list of its elements, an object the
  list of its own enumerable properties in order, a buffer stays the reference it is.
  There is no rule for \<open>undefined\<close>, so no member is \<open>undefined\<close>, and a derivation is
  finite, so the value is acyclic; \<open>S\<close> holds the objects on the path from the root, none
  of which may occur again below. The keys of an object are distinct, and none is
  \<open>__proto__\<close> or \<open>hasOwnProperty\<close>.
\<close>

inductive plain_data :: "'n heap \<Rightarrow> addr set \<Rightarrow> 'n jsval \<Rightarrow> 'n tree \<Rightarrow> bool" for h where
  null: "plain_data h S JNull (Val JNull)"
| bool: "plain_data h S (JBool b) (Val (JBool b))"
| number: "plain_data h S (JNumber n) (Val (JNumber n))"
| string: "plain_data h S (JString s) (Val (JString s))"
| bytes: "shape (h a) = BufferShape bs \<Longrightarrow> plain_data h S (JObject a) (Val (JObject a))"
| list: "shape (h a) = ArrayShape xs \<Longrightarrow> list_all2 (plain_data h S) xs ts \<Longrightarrow>
     plain_data h S (JObject a) (Arr ts)"
| object: "shape (h a) = OrdinaryShape \<Longrightarrow> fst (isPlainObject h a initial_state) = Inr True \<Longrightarrow>
     a \<notin> S \<Longrightarrow> distinct (map fst (own_props (h a))) \<Longrightarrow>
     ''__proto__'' \<notin> fst ` set (own_props (h a)) \<Longrightarrow>
     ''hasOwnProperty'' \<notin> fst ` set (own_props (h a)) \<Longrightarrow>
     map fst ps = map fst (own_props (h a)) \<Longrightarrow>
     list_all2 (plain_data h (insert a S)) (map snd (own_props (h a))) (map snd ps) \<Longrightarrow>
     plain_data h S (JObject a) (Obj ps)"

text \<open>What the encoder returns for plain data, in terms of the tree of the value.\<close>

primrec encoded :: "('n::zero) tree \<Rightarrow> 'n tree" where
  "encoded (Val v) =
     (case v of
        JNull \<Rightarrow> Obj [(''nullValue'', Val (JNumber 0))]
      | JBool b \<Rightarrow> Obj [(''boolValue'', Val v)]
      | JNumber n \<Rightarrow> Obj [(''numberValue'', Val v)]
      | JString s \<Rightarrow> Obj [(''stringValue'', Val v)]
      | JObject a \<Rightarrow> Obj [(''blobValue'', Val v)]
      | _ \<Rightarrow> Val JUndefined)"
| "encoded (Arr ts) = Obj [(''listValue'', Obj [(''values'', Arr (map encoded ts))])]"
| "encoded (Obj ps) = Obj [(''structValue'', Obj [(''fields'', Obj (map (map_prod id encoded) ps))])]"

text \<open>
  With room enough on the stack, \<open>encodeValue_\<close> returns the encoding of \<open>t\<close> for \<open>v\<close> and
  leaves \<open>seenObjects\<close> and the agreement of the cache as they were.
\<close>

definition encodes_plain :: "config \<Rightarrow> ('n::zero) heap \<Rightarrow> addr set \<Rightarrow> 'n jsval \<Rightarrow> 'n tree \<Rightarrow> bool" where
  "encodes_plain cfg h S v t =
     (\<exists>N. \<forall>d\<ge>N. \<forall>st. seenObjects st = S \<and> cache_agrees h st \<longrightarrow>
        (\<exists>st'. encodeValue d cfg h v st = (Inr (encoded t), st') \<and>
           seenObjects st' = S \<and> cache_agrees h st'))"

section \<open>Example inputs\<close>

text \<open>
  Cells for the concrete inputs below: an object literal, an array literal (its constructor
  \<open>Array\<close> is a function that is not an instance of itself), an instance of a class, and a
  heap made of numbered cells.
\<close>

definition literal_object :: "(string \<times> 'n jsval) list \<Rightarrow> 'n hobj" where
  "literal_object ps =
     \<lparr>shape = OrdinaryShape, proto = ObjectPrototype, own_props = ps, inherited_keys = [],
      string_form = Inr ''[object Object]''\<rparr>"

definition array_literal :: "'n jsval list \<Rightarrow> 'n hobj" where
  "array_literal xs =
     \<lparr>shape = ArrayShape xs, proto = OtherProto (Some (Callable (Some False) ''[object Function]'')),
      own_props = zip (map decimal [0..<length xs]) xs, inherited_keys = [],
      string_form = Inr []\<rparr>"

definition buffer_of :: "byte list \<Rightarrow> 'n hobj" where
  "buffer_of bs =
     \<lparr>shape = BufferShape bs, proto = OtherProto (Some (Callable (Some False) ''[object Function]'')),
      own_props = [], inherited_keys = [], string_form = Inr []\<rparr>"

definition instance_of_class :: "(string \<times> 'n jsval) list \<Rightarrow> string list \<Rightarrow> string \<Rightarrow> 'n hobj" where
  "instance_of_class ps inherited s =
     \<lparr>shape = OrdinaryShape, proto = OtherProto (Some (Callable (Some False) ''[object Function]'')),
      own_props = ps, inherited_keys = inherited, string_form = Inr s\<rparr>"

definition heap_of :: "(addr \<times> 'n hobj) list \<Rightarrow> 'n heap" where
  "heap_of cells a = (case map_of cells a of Some ob \<Rightarrow> ob | None \<Rightarrow> literal_object [])"

definition remove_circular :: config where
  "remove_circular = constructor (Some \<lparr>opt_removeCircular = Some True, opt_stringify = None\<rparr>)"

definition stringify_on :: config where
  "stringify_on = constructor (Some \<lparr>opt_removeCircular = None, opt_stringify = Some True\<rparr>)"

definition list_example :: "int heap" where
  "list_example = heap_of [(1, array_literal [JNumber 1, JString ''x'', JNull]), (2, buffer_of [1, 2])]"

definition undefined_in_list :: "int heap" where
  "undefined_in_list = heap_of [(1, literal_object [(''a'', JObject 2)]),
     (2, array_literal [JNumber 1, JUndefined])]"

definition self_reference :: "int heap" where
  "self_reference = heap_of [(1, literal_object [(''self'', JObject 1)])]"

definition date_field :: "int heap" where
  "date_field = heap_of [(1, literal_object [(''when'', JObject 2)]),
     (2, instance_of_class [] [] ''Thu Jan 01 1970 00:00:00 GMT+0000 (Coordinated Universal Time)'')]"

definition undefined_field :: "int heap" where
  "undefined_field = heap_of [(1, literal_object [(''a'', JNumber 1), (''b'', JUndefined)]),
     (2, (literal_object [(''a'', JNumber 1), (''b'', JUndefined)])\<lparr>inherited_keys := [''c'']\<rparr>)]"

definition stale_entry :: "int heap" where
  "stale_entry = heap_of [(1, literal_object [(''when'', JObject 2)]),
     (2, instance_of_class [] [] ''Thu Jan 01 1970 00:00:00 GMT+0000 (Coordinated Universal Time)''),
     (3, literal_object [(''inner'', JObject 1)])]"

definition two_alike :: "int heap" where
  "two_alike = heap_of [(1, instance_of_class [(''n'', JNumber 1)] [] ''[object Object]''),
     (2, instance_of_class [(''n'', JNumber 1)] [] ''[object Object]'')]"

text \<open>Inputs for the round trip.\<close>

definition one_number :: "int heap" where
  "one_number = heap_of [(1, literal_object [(''a'', JNumber 1)])]"

definition mixed_data :: "int heap" where
  "mixed_data = heap_of
     [(1, literal_object [(''n'', JNumber 5), (''s'', JString ''x''), (''z'', JNull), (''b'', JBool True),
            (''l'', JObject 2), (''o'', JObject 3), (''blob'', JObject 4)]),
      (2, array_literal [JNumber 1, JString ''a'']),
      (3, literal_object [(''q'', JNumber 5)]),
      (4, buffer_of [1, 2])]"

definition mixed_tree :: "int tree" where
  "mixed_tree = Obj [(''n'', Val (JNumber 5)), (''s'', Val (JString ''x'')), (''z'', Val JNull),
     (''b'', Val (JBool True)), (''l'', Arr [Val (JNumber 1), Val (JString ''a'')]),
     (''o'', Obj [(''q'', Val (JNumber 5))]), (''blob'', Val (JObject 4))]"

definition shadowing_key :: "int heap" where
  "shadowing_key = heap_of [(1, literal_object [(''hasOwnProperty'', JNumber 1)]),
     (2, literal_object [(''__proto__'', JNumber 1)])]"

section \<open>Basic facts\<close>

lemma and_then_Inl [simp]: "and_then (Inl e, s) f = (Inl e, s)"
  by (simp add: and_then_def)

lemma and_then_Inr [simp]: "and_then (Inr v, s) f = f v s"
  by (simp add: and_then_def)

lemma and_then_eq_Inr:
  "and_then m f = (Inr r, s') \<longleftrightarrow> (\<exists>v s. m = (Inr v, s) \<and> f v s = (Inr r, s'))"
  by (cases m) (auto simp: and_then_def split: sum.splits)

lemma and_then_InrE:
  assumes "and_then m f = (Inr r, s')"
  obtains v s where "m = (Inr v, s)" and "f v s = (Inr r, s')"
  using assms by (auto simp: and_then_eq_Inr)

lemmas example_defs =
  constructor_def heap_of_def literal_object_def array_literal_def buffer_of_def
  instance_of_class_def initial_state_def for_in_keys_def hasOwnProperty_def get_own_def
  assign_def isPlainObject_def remember_def

lemma isPlainObject_seen: "isPlainObject h a st = (r, st') \<Longrightarrow> seenObjects st' = seenObjects st"
  by (auto simp: isPlainObject_def remember_def and_then_def split: option.splits proto.splits sum.splits)

section \<open>The tags of \<open>encodeValue_\<close>\<close>

lemma encode_elements_length:
  "encode_elements d cfg h xs st = (Inr vs, st') \<Longrightarrow> length vs = length xs"
proof (induction xs arbitrary: st vs)
  case Nil
  then show ?case by simp
next
  case (Cons x xs)
  then show ?case by (auto simp: and_then_eq_Inr)
qed

lemma encode_elements_states:
  "encode_elements d cfg h xs st = (Inr vs, st') \<Longrightarrow>
     \<exists>ss. length ss = Suc (length xs) \<and> ss ! 0 = st \<and> ss ! length xs = st' \<and>
       (\<forall>i<length xs. encodeValue d cfg h (xs ! i) (ss ! i) = (Inr (vs ! i), ss ! Suc i))"
proof (induction xs arbitrary: st vs)
  case Nil
  then show ?case by (auto intro: exI [of _ "[st]"])
next
  case (Cons x xs)
  from Cons.prems obtain v s1 ws where
    hd: "encodeValue d cfg h x st = (Inr v, s1)" and
    tl: "encode_elements d cfg h xs s1 = (Inr ws, st')" and vs: "vs = v # ws"
    by (auto simp: and_then_eq_Inr)
  from Cons.IH [OF tl] obtain ss where
    ss: "length ss = Suc (length xs)" "ss ! 0 = s1" "ss ! length xs = st'"
      "\<forall>i<length xs. encodeValue d cfg h (xs ! i) (ss ! i) = (Inr (ws ! i), ss ! Suc i)"
    by blast
  have "\<forall>i<length (x # xs).
          encodeValue d cfg h ((x # xs) ! i) ((st # ss) ! i) = (Inr (vs ! i), (st # ss) ! Suc i)"
  proof (intro allI impI)
    fix i assume "i < length (x # xs)"
    then show "encodeValue d cfg h ((x # xs) ! i) ((st # ss) ! i) = (Inr (vs ! i), (st # ss) ! Suc i)"
      using hd vs ss by (cases i) auto
  qed
  with ss show ?case by (intro exI [of _ "st # ss"]) simp
qed

lemma one_variant_simps [simp]:
  "one_variant (Obj [(''nullValue'', p)])" "one_variant (Obj [(''boolValue'', p)])"
  "one_variant (Obj [(''numberValue'', p)])" "one_variant (Obj [(''stringValue'', p)])"
  "one_variant (Obj [(''listValue'', p)])" "one_variant (Obj [(''blobValue'', p)])"
  "one_variant (Obj [(''structValue'', p)])"
  by (simp_all add: variants_def)

lemma encodeValue_one_variant:
  assumes "encodeValue d cfg h v st = (Inr r, st')"
  shows "r = Val JUndefined \<or> one_variant r"
proof (cases d)
  case 0
  with assms show ?thesis by simp
next
  case (Suc d')
  note enc = assms [unfolded Suc]
  show ?thesis
  proof (cases v)
    case (JObject a)
    note enc = enc [unfolded JObject]
    show ?thesis
    proof (cases "shape (h a)")
      case (ArrayShape xs)
      with enc show ?thesis by (auto elim!: and_then_InrE simp del: one_variant.simps)
    next
      case (BufferShape bs)
      with enc show ?thesis by (auto simp del: one_variant.simps)
    next
      case OrdinaryShape
      with enc show ?thesis
        by (auto elim!: and_then_InrE simp del: one_variant.simps split: if_splits)
    qed
  qed (use enc in \<open>auto simp del: one_variant.simps\<close>)
qed

text \<open>
  Claim C7. With room for the call on the stack, \<open>encodeValue_\<close> maps \<open>null\<close> to
  \<open>{nullValue: 0}\<close>, a boolean to \<open>{boolValue}\<close>, a number to \<open>{numberValue}\<close>, a string
  to \<open>{stringValue}\<close> and a buffer to \<open>{blobValue}\<close> holding the very same buffer, all
  without touching the state. For an array it encodes the elements from left to right,
  each in the state its predecessor left behind: an exception of an element is the
  exception of the array, and otherwise the result is \<open>{listValue: {values: vs}}\<close> where
  \<open>vs\<close> has the length of the array and its \<open>i\<close>-th entry is the encoding of the \<open>i\<close>-th
  element. Whatever \<open>encodeValue_\<close> returns is either \<open>undefined\<close> or an object with
  exactly one property, named by one of the seven variants.
\<close>

theorem encodeValue_tags:
  "encodeValue (Suc d) cfg h JNull st = (Inr (Obj [(''nullValue'', Val (JNumber 0))]), st)
   \<and> encodeValue (Suc d) cfg h (JBool b) st = (Inr (Obj [(''boolValue'', Val (JBool b))]), st)
   \<and> encodeValue (Suc d) cfg h (JNumber n) st = (Inr (Obj [(''numberValue'', Val (JNumber n))]), st)
   \<and> encodeValue (Suc d) cfg h (JString s) st = (Inr (Obj [(''stringValue'', Val (JString s))]), st)
   \<and> (shape (h a) = BufferShape bs \<longrightarrow>
        encodeValue (Suc d) cfg h (JObject a) st = (Inr (Obj [(''blobValue'', Val (JObject a))]), st))
   \<and> (shape (h a) = ArrayShape xs \<longrightarrow>
        (\<forall>e st'. encode_elements d cfg h xs st = (Inl e, st') \<longrightarrow>
           encodeValue (Suc d) cfg h (JObject a) st = (Inl e, st')) \<and>
        (\<forall>vs st'. encode_elements d cfg h xs st = (Inr vs, st') \<longrightarrow>
           encodeValue (Suc d) cfg h (JObject a) st =
             (Inr (Obj [(''listValue'', Obj [(''values'', Arr vs)])]), st') \<and>
           (\<exists>ss. length ss = Suc (length xs) \<and> length vs = length xs \<and>
              ss ! 0 = st \<and> ss ! length xs = st' \<and>
              (\<forall>i<length xs.
                 encodeValue d cfg h (xs ! i) (ss ! i) = (Inr (vs ! i), ss ! Suc i)))))
   \<and> (\<forall>v r st'. encodeValue d cfg h v st = (Inr r, st') \<longrightarrow>
        r = Val JUndefined \<or> one_variant r)"
proof (intro conjI impI allI)
  fix vs st'
  assume "shape (h a) = ArrayShape xs" and el: "encode_elements d cfg h xs st = (Inr vs, st')"
  from encode_elements_states [OF el] encode_elements_length [OF el]
  show "\<exists>ss. length ss = Suc (length xs) \<and> length vs = length xs \<and>
              ss ! 0 = st \<and> ss ! length xs = st' \<and>
              (\<forall>i<length xs.
                 encodeValue d cfg h (xs ! i) (ss ! i) = (Inr (vs ! i), ss ! Suc i))"
    by blast
next
  fix v r st'
  assume "encodeValue d cfg h v st = (Inr r, st')"
  then show "r = Val JUndefined \<or> one_variant r"
    by (rule encodeValue_one_variant)
qed simp_all

theorem encodeValue_tags_witness:
  "shape (list_example 2) = BufferShape [1, 2]
   \<and> encodeValue (Suc (Suc 0)) (constructor None) list_example (JObject 2) initial_state
       = (Inr (Obj [(''blobValue'', Val (JObject 2))]), initial_state)
   \<and> shape (list_example 1) = ArrayShape [JNumber 1, JString ''x'', JNull]
   \<and> encodeValue (Suc (Suc 0)) (constructor None) list_example (JObject 1) initial_state
       = (Inr (Obj [(''listValue'', Obj [(''values'',
            Arr [Obj [(''numberValue'', Val (JNumber 1))], Obj [(''stringValue'', Val (JString ''x''))],
                 Obj [(''nullValue'', Val (JNumber 0))]])])]), initial_state)"
  using encodeValue_tags [of "Suc 0" "constructor None" list_example initial_state False 1 "''x''"
      2 "[1, 2]" "[JNumber 1, JString ''x'', JNull]"]
  by (simp add: list_example_def example_defs)

section \<open>Values that no case of \<open>encodeValue_\<close> recognises\<close>

text \<open>
  Claim C10. A value whose \<open>typeof\<close> is \<open>'function'\<close>, \<open>'symbol'\<close> or \<open>'bigint'\<close> matches
  no case of either \<open>switch\<close>: \<open>encodeValue_\<close> neither throws nor builds a tagged value,
  it returns \<open>undefined\<close> and leaves the state as it was. The loop of \<open>convert\<close> then
  stores \<open>undefined\<close> under the key of such a field and goes on with the next key.
\<close>

theorem fall_through_returns_undefined:
  "(typeof v = ''function'' \<or> typeof v = ''symbol'' \<or> typeof v = ''bigint'' \<longrightarrow>
      encodeValue (Suc d) cfg h v st = (Inr (Val JUndefined), st))
   \<and> (hasOwnProperty (h obj) prop \<and> get_own (h obj) prop = v \<and>
      (typeof v = ''function'' \<or> typeof v = ''symbol'' \<or> typeof v = ''bigint'') \<longrightarrow>
      convert_loop (Suc d) cfg h obj (prop # props) flds st =
      convert_loop (Suc d) cfg h obj props (assign flds prop (Val JUndefined)) st)"
  by (cases v) auto

theorem fall_through_returns_undefined_witness:
  "typeof (JFunction 7 :: int jsval) = ''function''
   \<and> encodeValue (Suc 0) (constructor None)
         (heap_of [(1, literal_object [(''f'', JFunction 7 :: int jsval)])]) (JFunction 7) initial_state
       = (Inr (Val JUndefined), initial_state)
   \<and> fst (convert (Suc (Suc 0)) (constructor None)
        (heap_of [(1, literal_object [(''f'', JFunction 7 :: int jsval)])]) 1 initial_state)
       = Inr (Obj [(''fields'', Obj [(''f'', Val JUndefined)])])"
  using fall_through_returns_undefined [of "JFunction 7 :: int jsval" 0 "constructor None"
      "heap_of [(1, literal_object [(''f'', JFunction 7 :: int jsval)])]" initial_state
      1 "''f''" "[]" "[]"]
  by (simp add: example_defs)

section \<open>\<open>undefined\<close> inside a list\<close>

lemma encode_elements_append:
  "encode_elements d cfg h (xs @ ys) st =
     and_then (encode_elements d cfg h xs st)
       (\<lambda>vs st'. and_then (encode_elements d cfg h ys st') (\<lambda>ws st''. (Inr (vs @ ws), st'')))"
proof (induction xs arbitrary: st)
  case Nil
  show ?case by (cases "encode_elements d cfg h ys st") (auto simp: and_then_def split: sum.splits)
next
  case (Cons x xs)
  show ?case
    by (cases "encodeValue d cfg h x st") (auto simp: Cons.IH and_then_def split: sum.splits prod.splits)
qed

lemma encode_elements_undefined:
  "JUndefined \<in> set xs \<Longrightarrow> encode_elements d cfg h xs st \<noteq> (Inr vs, st')"
proof (induction xs arbitrary: st vs)
  case Nil
  then show ?case by simp
next
  case (Cons x xs)
  show ?case
  proof (cases "x = JUndefined")
    case True
    then show ?thesis by (cases d) auto
  next
    case False
    with Cons.prems have "JUndefined \<in> set xs" by simp
    from Cons.IH [OF this] show ?thesis
      by (auto simp: and_then_eq_Inr)
  qed
qed

text \<open>
  Claim C6. The elements of an array are not filtered. An array that contains \<open>undefined\<close>
  is never encoded to a value, whatever the stack allows; when the elements before the
  first \<open>undefined\<close> have been encoded, the call throws the string
  \<open>Value of type undefined not recognized.\<close>. So does \<open>convert\<close> on \<open>{a: [1, undefined]}\<close>,
  for every configuration, with room for three nested calls or more.
\<close>

theorem undefined_list_element_fails:
  "(shape (h a) = ArrayShape xs \<and> JUndefined \<in> set xs \<longrightarrow>
      (\<forall>r. fst (encodeValue d cfg h (JObject a) st) \<noteq> Inr r))
   \<and> (shape (h a) = ArrayShape (pre @ JUndefined # post) \<and>
        encode_elements (Suc d) cfg h pre st = (Inr vs, st') \<longrightarrow>
      encodeValue (Suc (Suc d)) cfg h (JObject a) st =
        (Inl (ThrowString ''Value of type undefined not recognized.''), st'))
   \<and> fst (convert (Suc (Suc (Suc n))) cfg undefined_in_list 1 initial_state)
        = Inl (ThrowString ''Value of type undefined not recognized.'')"
proof (intro conjI impI allI)
  fix r
  assume a: "shape (h a) = ArrayShape xs \<and> JUndefined \<in> set xs"
  show "fst (encodeValue d cfg h (JObject a) st) \<noteq> Inr r"
  proof (cases d)
    case 0
    then show ?thesis by simp
  next
    case (Suc d')
    from a encode_elements_undefined [of xs d' cfg h st] show ?thesis
      by (cases "encodeValue d cfg h (JObject a) st") (auto simp: Suc and_then_eq_Inr)
  qed
next
  assume "shape (h a) = ArrayShape (pre @ JUndefined # post) \<and>
        encode_elements (Suc d) cfg h pre st = (Inr vs, st')"
  then show "encodeValue (Suc (Suc d)) cfg h (JObject a) st =
        (Inl (ThrowString ''Value of type undefined not recognized.''), st')"
    by (simp add: encode_elements_append)
next
  show "fst (convert (Suc (Suc (Suc n))) cfg undefined_in_list 1 initial_state)
        = Inl (ThrowString ''Value of type undefined not recognized.'')"
    by (simp add: undefined_in_list_def example_defs)
qed

theorem undefined_list_element_fails_witness:
  "shape (undefined_in_list 2) = ArrayShape ([JNumber 1] @ JUndefined # [])
   \<and> JUndefined \<in> set [JNumber 1, JUndefined :: int jsval]
   \<and> encode_elements (Suc 0) (constructor None) undefined_in_list [JNumber 1] initial_state
        = (Inr [Obj [(''numberValue'', Val (JNumber 1))]], initial_state)
   \<and> encodeValue (Suc (Suc 0)) (constructor None) undefined_in_list (JObject 2) initial_state
        = (Inl (ThrowString ''Value of type undefined not recognized.''), initial_state)
   \<and> (\<forall>r. fst (encodeValue (Suc (Suc 0)) (constructor None) undefined_in_list (JObject 2) initial_state)
        \<noteq> Inr r)"
  using undefined_list_element_fails [of undefined_in_list 2 "[JNumber 1, JUndefined]" "Suc (Suc 0)"
      "constructor None" initial_state "[]" "[]" "[]" initial_state 0]
    undefined_list_element_fails [of undefined_in_list 2 "[JNumber 1, JUndefined]" 0
      "constructor None" initial_state "[JNumber 1]" "[]" "[Obj [(''numberValue'', Val (JNumber 1))]]"
      initial_state 0]
  by (simp add: undefined_in_list_def example_defs)

section \<open>Circular references\<close>

text \<open>
  Claim C3. When \<open>encodeValue_\<close> meets an object that \<open>isPlainObject\<close> classifies as plain
  and that is in \<open>seenObjects\<close>, it throws the circular-reference \<open>Error\<close> if
  \<open>removeCircular\<close> is false, and returns \<open>{stringValue: '[Circular]'}\<close> if it is true.
  A converter built without options has \<open>removeCircular\<close> false. For \<open>o = {}; o.self = o\<close>,
  with room for two nested calls or more, \<open>convert(o)\<close> throws that error by default, and
  with \<open>removeCircular\<close> set it returns \<open>{fields: {self: {stringValue: '[Circular]'}}}\<close>.
\<close>

theorem circular_reference_policy:
  "(shape (h a) = OrdinaryShape \<and> fst (isPlainObject h a st) = Inr True \<and> a \<in> seenObjects st \<longrightarrow>
      fst (encodeValue (Suc d) cfg h (JObject a) st) =
        (if removeCircular cfg then Inr (Obj [(''stringValue'', Val (JString ''[Circular]''))])
         else Inl (ThrowError circular_message)))
   \<and> removeCircular (constructor None) = False
   \<and> fst (convert (Suc (Suc n)) (constructor None) self_reference 1 initial_state)
        = Inl (ThrowError circular_message)
   \<and> fst (convert (Suc (Suc n)) remove_circular self_reference 1 initial_state)
        = Inr (Obj [(''fields'', Obj [(''self'', Obj [(''stringValue'', Val (JString ''[Circular]''))])])])"
proof (intro conjI impI)
  assume a: "shape (h a) = OrdinaryShape \<and> fst (isPlainObject h a st) = Inr True \<and> a \<in> seenObjects st"
  obtain st1 where p: "isPlainObject h a st = (Inr True, st1)"
    using a by (cases "isPlainObject h a st") auto
  from isPlainObject_seen [OF p] a have "a \<in> seenObjects st1" by simp
  with a p show "fst (encodeValue (Suc d) cfg h (JObject a) st) =
        (if removeCircular cfg then Inr (Obj [(''stringValue'', Val (JString ''[Circular]''))])
         else Inl (ThrowError circular_message))"
    by simp
qed (simp_all add: self_reference_def remove_circular_def example_defs)

theorem circular_reference_policy_witness:
  "shape (self_reference 1) = OrdinaryShape
   \<and> fst (isPlainObject self_reference 1 (initial_state\<lparr>seenObjects := {1}\<rparr>)) = Inr True
   \<and> fst (encodeValue (Suc 0) (constructor None) self_reference (JObject 1) (initial_state\<lparr>seenObjects := {1}\<rparr>))
       = Inl (ThrowError circular_message)"
  using circular_reference_policy [of self_reference 1 "initial_state\<lparr>seenObjects := {1}\<rparr>" 0 "constructor None" 0]
  by (simp add: self_reference_def example_defs)

section \<open>Objects that are not plain\<close>

text \<open>
  Claim C4. When \<open>encodeValue_\<close> meets an object that is neither an array nor a buffer and
  that \<open>isPlainObject\<close> does not classify as plain, it throws an \<open>Error\<close> with the message
  \<open>Value of type object not recognized.\<close> if \<open>stringify\<close> is false, and returns
  \<open>{stringValue: String(value)}\<close> if it is true (or the exception of \<open>String(value)\<close>,
  should that conversion throw). A converter built without options has \<open>stringify\<close> false.
  The example is an object holding an instance of a class.
\<close>

theorem opaque_type_policy:
  "(shape (h a) = OrdinaryShape \<and> fst (isPlainObject h a st) = Inr False \<longrightarrow>
      fst (encodeValue (Suc d) cfg h (JObject a) st) =
        (if stringify cfg then
           (case string_form (h a) of
              Inl e \<Rightarrow> Inl e
            | Inr s \<Rightarrow> Inr (Obj [(''stringValue'', Val (JString s))]))
         else Inl (ThrowError ''Value of type object not recognized.'')))
   \<and> stringify (constructor None) = False
   \<and> fst (convert (Suc (Suc n)) (constructor None) date_field 1 initial_state)
        = Inl (ThrowError ''Value of type object not recognized.'')
   \<and> fst (convert (Suc (Suc n)) stringify_on date_field 1 initial_state)
        = Inr (Obj [(''fields'', Obj [(''when'', Obj [(''stringValue'',
            Val (JString ''Thu Jan 01 1970 00:00:00 GMT+0000 (Coordinated Universal Time)''))])])])"
proof (intro conjI impI)
  assume a: "shape (h a) = OrdinaryShape \<and> fst (isPlainObject h a st) = Inr False"
  obtain st1 where p: "isPlainObject h a st = (Inr False, st1)"
    using a by (cases "isPlainObject h a st") auto
  with a show "fst (encodeValue (Suc d) cfg h (JObject a) st) =
        (if stringify cfg then
           (case string_form (h a) of
              Inl e \<Rightarrow> Inl e
            | Inr s \<Rightarrow> Inr (Obj [(''stringValue'', Val (JString s))]))
         else Inl (ThrowError ''Value of type object not recognized.''))"
    by (simp split: sum.splits)
qed (simp_all add: date_field_def stringify_on_def example_defs)

theorem opaque_type_policy_witness:
  "shape (date_field 2) = OrdinaryShape
   \<and> fst (isPlainObject date_field 2 initial_state) = Inr False
   \<and> fst (encodeValue (Suc 0) (constructor None) date_field (JObject 2) initial_state)
       = Inl (ThrowError ''Value of type object not recognized.'')
   \<and> fst (encodeValue (Suc 0) stringify_on date_field (JObject 2) initial_state)
       = Inr (Obj [(''stringValue'',
            Val (JString ''Thu Jan 01 1970 00:00:00 GMT+0000 (Coordinated Universal Time)''))])"
  using opaque_type_policy [of date_field 2 initial_state 0 "constructor None" 0]
    opaque_type_policy [of date_field 2 initial_state 0 stringify_on 0]
  by (simp add: date_field_def stringify_on_def example_defs)

section \<open>The fields of a converted object\<close>

lemma upsert_keys: "fst ` set (upsert k v ps) = insert k (fst ` set ps)"
proof (induction ps)
  case Nil
  show ?case by simp
next
  case (Cons p ps)
  then show ?case by (cases p) (simp add: insert_commute)
qed

lemma upsert_entries: "(k', v') \<in> set (upsert k v ps) \<Longrightarrow> (k', v') = (k, v) \<or> (k', v') \<in> set ps"
  by (induction ps) (auto split: if_splits)

lemma convert_loop_keys:
  "convert_loop d cfg h obj props flds st = (Inr flds', st') \<Longrightarrow>
     fst ` set flds' = fst ` set flds \<union>
       {k \<in> set props. hasOwnProperty (h obj) k \<and> get_own (h obj) k \<noteq> JUndefined \<and> k \<noteq> ''__proto__''}"
proof (induction props arbitrary: flds st)
  case Nil
  then show ?case by simp
next
  case (Cons key keys)
  show ?case
  proof (cases "hasOwnProperty (h obj) key \<and> get_own (h obj) key \<noteq> JUndefined")
    case True
    with Cons.prems obtain v st1 where
      rest: "convert_loop d cfg h obj keys (assign flds key v) st1 = (Inr flds', st')"
      by (auto elim!: and_then_InrE)
    from Cons.IH [OF rest] True show ?thesis
      by (auto simp: assign_def upsert_keys)
  next
    case False
    with Cons.prems have rest: "convert_loop d cfg h obj keys flds st = (Inr flds', st')"
      by (auto split: if_splits)
    from Cons.IH [OF rest] False show ?thesis by auto
  qed
qed

lemma convert_loop_values:
  "convert_loop d cfg h obj props flds st = (Inr flds', st') \<Longrightarrow> (k, v) \<in> set flds' \<Longrightarrow>
     (k, v) \<in> set flds \<or>
     (k \<in> set props \<and> (\<exists>s1 s2. encodeValue d cfg h (get_own (h obj) k) s1 = (Inr v, s2)))"
proof (induction props arbitrary: flds st)
  case Nil
  then show ?case by simp
next
  case (Cons key keys)
  show ?case
  proof (cases "hasOwnProperty (h obj) key \<and> get_own (h obj) key \<noteq> JUndefined")
    case True
    with Cons.prems(1) obtain w st1 where
      enc: "encodeValue d cfg h (get_own (h obj) key) st = (Inr w, st1)" and
      rest: "convert_loop d cfg h obj keys (assign flds key w) st1 = (Inr flds', st')"
      by (auto elim!: and_then_InrE)
    from Cons.IH [OF rest Cons.prems(2)] show ?thesis
    proof
      assume "(k, v) \<in> set (assign flds key w)"
      then have "(k, v) = (key, w) \<or> (k, v) \<in> set flds"
        by (auto simp: assign_def dest: upsert_entries split: if_splits)
      with enc show ?thesis by auto
    qed auto
  next
    case False
    with Cons.prems(1) have rest: "convert_loop d cfg h obj keys flds st = (Inr flds', st')"
      by (auto split: if_splits)
    from Cons.IH [OF rest Cons.prems(2)] show ?thesis by auto
  qed
qed

lemma own_keys_visited: "hasOwnProperty ob k \<Longrightarrow> k \<in> set (for_in_keys ob)"
  by (auto simp: hasOwnProperty_def for_in_keys_def)

text \<open>
  Claim C5. When \<open>convert(obj)\<close> returns, it returns \<open>{fields: flds}\<close> where every key of
  \<open>flds\<close> is an own enumerable key of \<open>obj\<close> whose value is not \<open>undefined\<close> (so no inherited
  key and no key with an \<open>undefined\<close> value appears), every such key is a key of \<open>flds\<close>
  (but for \<open>__proto__\<close>, whose assignment creates no property), and the value stored under a
  key is what \<open>encodeValue_\<close> returned for the value of \<open>obj\<close> at that key. For
  \<open>{a: 1, b: undefined}\<close> the result is \<open>{fields: {a: {numberValue: 1}}}\<close>, with or without
  an inherited enumerable key \<open>c\<close>.
\<close>

theorem convert_own_defined_keys:
  "(convert (Suc d) cfg h obj st = (Inr s, st') \<longrightarrow>
      (\<exists>flds. s = Obj [(''fields'', Obj flds)] \<and>
         (\<forall>k. k \<in> fst ` set flds \<longrightarrow>
            hasOwnProperty (h obj) k \<and> get_own (h obj) k \<noteq> JUndefined) \<and>
         (\<forall>k. hasOwnProperty (h obj) k \<and> get_own (h obj) k \<noteq> JUndefined \<and> k \<noteq> ''__proto__'' \<longrightarrow>
            k \<in> fst ` set flds) \<and>
         (\<forall>k v. (k, v) \<in> set flds \<longrightarrow>
            (\<exists>s1 s2. encodeValue d cfg h (get_own (h obj) k) s1 = (Inr v, s2)))))
   \<and> fst (convert (Suc (Suc n)) cfg undefined_field 1 initial_state)
        = Inr (Obj [(''fields'', Obj [(''a'', Obj [(''numberValue'', Val (JNumber 1))])])])
   \<and> fst (convert (Suc (Suc n)) cfg undefined_field 2 initial_state)
        = Inr (Obj [(''fields'', Obj [(''a'', Obj [(''numberValue'', Val (JNumber 1))])])])"
proof (intro conjI impI)
  assume c: "convert (Suc d) cfg h obj st = (Inr s, st')"
  then obtain flds st1 where
    loop: "convert_loop d cfg h obj (for_in_keys (h obj)) [] (st\<lparr>seenObjects := insert obj (seenObjects st)\<rparr>) = (Inr flds, st1)"
    and s: "s = Obj [(''fields'', Obj flds)]"
    by (auto elim!: and_then_InrE)
  note keys = convert_loop_keys [OF loop]
  have 1: "\<forall>k. k \<in> fst ` set flds \<longrightarrow> hasOwnProperty (h obj) k \<and> get_own (h obj) k \<noteq> JUndefined"
    using keys by auto
  have 2: "\<forall>k. hasOwnProperty (h obj) k \<and> get_own (h obj) k \<noteq> JUndefined \<and> k \<noteq> ''__proto__'' \<longrightarrow>
            k \<in> fst ` set flds"
    using keys own_keys_visited [of "h obj"] by auto
  have 3: "\<forall>k v. (k, v) \<in> set flds \<longrightarrow>
            (\<exists>s1 s2. encodeValue d cfg h (get_own (h obj) k) s1 = (Inr v, s2))"
    using convert_loop_values [OF loop] by auto
  from s 1 2 3 show "\<exists>flds. s = Obj [(''fields'', Obj flds)] \<and>
         (\<forall>k. k \<in> fst ` set flds \<longrightarrow>
            hasOwnProperty (h obj) k \<and> get_own (h obj) k \<noteq> JUndefined) \<and>
         (\<forall>k. hasOwnProperty (h obj) k \<and> get_own (h obj) k \<noteq> JUndefined \<and> k \<noteq> ''__proto__'' \<longrightarrow>
            k \<in> fst ` set flds) \<and>
         (\<forall>k v. (k, v) \<in> set flds \<longrightarrow>
            (\<exists>s1 s2. encodeValue d cfg h (get_own (h obj) k) s1 = (Inr v, s2)))"
    by blast
qed (simp_all add: undefined_field_def example_defs)

theorem convert_own_defined_keys_witness:
  "convert (Suc (Suc 0)) (constructor None) undefined_field 2 initial_state
     = (Inr (Obj [(''fields'', Obj [(''a'', Obj [(''numberValue'', Val (JNumber 1))])])]), initial_state)
   \<and> for_in_keys (undefined_field 2) = [''a'', ''b'', ''c'']
   \<and> hasOwnProperty (undefined_field 2) ''a'' \<and> get_own (undefined_field 2) ''a'' = JNumber 1
   \<and> hasOwnProperty (undefined_field 2) ''b'' \<and> get_own (undefined_field 2) ''b'' = JUndefined
   \<and> \<not> hasOwnProperty (undefined_field 2) ''c''
   \<and> (\<exists>flds. Obj [(''fields'', Obj [(''a'', Obj [(''numberValue'', Val (JNumber (1::int)))])])]
          = Obj [(''fields'', Obj flds)] \<and> ''a'' \<in> fst ` set flds \<and> ''b'' \<notin> fst ` set flds
          \<and> ''c'' \<notin> fst ` set flds)"
proof -
  have c: "convert (Suc (Suc 0)) (constructor None) undefined_field 2 initial_state
     = (Inr (Obj [(''fields'', Obj [(''a'', Obj [(''numberValue'', Val (JNumber 1))])])]), initial_state)"
    by (simp add: undefined_field_def example_defs)
  have keys: "for_in_keys (undefined_field 2) = [''a'', ''b'', ''c'']"
    by (simp add: undefined_field_def example_defs)
  have a: "hasOwnProperty (undefined_field 2) ''a''" "get_own (undefined_field 2) ''a'' = JNumber 1"
    by (simp_all add: undefined_field_def example_defs)
  have b: "hasOwnProperty (undefined_field 2) ''b''" "get_own (undefined_field 2) ''b'' = JUndefined"
    by (simp_all add: undefined_field_def example_defs)
  have c': "\<not> hasOwnProperty (undefined_field 2) ''c''"
    by (simp add: undefined_field_def example_defs)
  from convert_own_defined_keys [of "Suc 0" "constructor None" undefined_field 2 initial_state
      "Obj [(''fields'', Obj [(''a'', Obj [(''numberValue'', Val (JNumber 1))])])]" initial_state 0]
    c
  obtain flds where
    f: "Obj [(''fields'', Obj [(''a'', Obj [(''numberValue'', Val (JNumber (1::int)))])])] = Obj [(''fields'', Obj flds)]"
    and sub: "\<forall>k. k \<in> fst ` set flds \<longrightarrow>
            hasOwnProperty (undefined_field 2) k \<and> get_own (undefined_field 2) k \<noteq> JUndefined"
    and sup: "\<forall>k. hasOwnProperty (undefined_field 2) k \<and> get_own (undefined_field 2) k \<noteq> JUndefined \<and> k \<noteq> ''__proto__'' \<longrightarrow>
            k \<in> fst ` set flds"
    by blast
  from sup a have ina: "''a'' \<in> fst ` set flds" by simp
  from sub b have inb: "''b'' \<notin> fst ` set flds" by blast
  from sub c' have inc: "''c'' \<notin> fst ` set flds" by blast
  have ex: "\<exists>flds. Obj [(''fields'', Obj [(''a'', Obj [(''numberValue'', Val (JNumber (1::int)))])])]
          = Obj [(''fields'', Obj flds)] \<and> ''a'' \<in> fst ` set flds \<and> ''b'' \<notin> fst ` set flds
          \<and> ''c'' \<notin> fst ` set flds"
    by (intro exI [of _ flds] conjI) (fact f ina inb inc)+
  show ?thesis
    by (intro conjI) (fact c keys a b c' ex)+
qed

section \<open>The visiting set\<close>

text \<open>
  A call that returns leaves \<open>seenObjects\<close> as it found it; \<open>convert(obj)\<close>, which adds
  \<open>obj\<close> before its loop, has deleted it again when it returns.
\<close>

lemma seen_restored:
  "convert d cfg h obj st = (Inr s, st') \<Longrightarrow> seenObjects st' = seenObjects st - {obj}"
  "convert_loop d cfg h obj props flds st = (Inr flds', st') \<Longrightarrow> seenObjects st' = seenObjects st"
  "encodeValue d cfg h v st = (Inr r, st') \<Longrightarrow> seenObjects st' = seenObjects st"
  "encode_elements d cfg h xs st = (Inr vs, st') \<Longrightarrow> seenObjects st' = seenObjects st"
proof (induction d cfg h obj st and d cfg h obj props flds st and d cfg h v st and d cfg h xs st
    arbitrary: s st' and flds' st' and r st' and vs st'
    rule: convert_convert_loop_encodeValue_encode_elements.induct)
  case (1 cfg h obj st)
  then show ?case by simp
next
  case (2 d cfg h obj st)
  from "2.prems" obtain flds st1 where
    loop: "convert_loop d cfg h obj (for_in_keys (h obj)) [] (st\<lparr>seenObjects := insert obj (seenObjects st)\<rparr>) = (Inr flds, st1)"
    and st': "st' = st1\<lparr>seenObjects := seenObjects st1 - {obj}\<rparr>"
    by (auto elim!: and_then_InrE)
  from "2.IH" [OF loop] st' show ?case by simp
next
  case (3 d cfg h obj flds st)
  then show ?case by simp
next
  case (4 d cfg h obj key keys flds st)
  show ?case
  proof (cases "hasOwnProperty (h obj) key \<and> get_own (h obj) key \<noteq> JUndefined")
    case True
    with "4.prems" obtain v st1 where
      enc: "encodeValue d cfg h (get_own (h obj) key) st = (Inr v, st1)" and
      rest: "convert_loop d cfg h obj keys (assign flds key v) st1 = (Inr flds', st')"
      by (auto elim!: and_then_InrE)
    from "4.IH"(2) [OF _ _ enc] "4.IH"(3) [OF _ _ rest] True show ?thesis by simp
  next
    case False
    with "4.prems" have rest: "convert_loop d cfg h obj keys flds st = (Inr flds', st')"
      by (auto split: if_splits)
    from False "4.IH"(1) [OF _ _ rest] "4.IH"(4) [OF _ rest] show ?thesis by blast
  qed
next
  case (5 cfg h v st)
  then show ?case by simp
next
  case (6 d cfg h v st)
  show ?case
  proof (cases v)
    case (JObject a)
    show ?thesis
    proof (cases "shape (h a)")
      case (ArrayShape xs)
      with "6.prems" JObject obtain vs where "encode_elements d cfg h xs st = (Inr vs, st')"
        by (auto elim!: and_then_InrE)
      from "6.IH"(1) [OF JObject ArrayShape this] show ?thesis .
    next
      case (BufferShape bs)
      with "6.prems" JObject show ?thesis by auto
    next
      case OrdinaryShape
      with "6.prems" JObject obtain plain st1 where
        p: "isPlainObject h a st = (Inr plain, st1)" and
        k: "(if plain then
               (if a \<in> seenObjects st1 then
                  (if \<not> removeCircular cfg then (Inl (ThrowError circular_message), st1)
                   else (Inr (Obj [(''stringValue'', Val (JString ''[Circular]''))]), st1))
                else and_then (convert d cfg h a st1) (\<lambda>s st'. (Inr (Obj [(''structValue'', s)]), st')))
             else
               (if \<not> stringify cfg then
                  (Inl (ThrowError (''Value of type '' @ typeof v @ '' not recognized.'')), st1)
                else and_then (string_form (h a), st1)
                       (\<lambda>s st'. (Inr (Obj [(''stringValue'', Val (JString s))]), st')))) = (Inr r, st')"
        by (auto elim!: and_then_InrE)
      note seen1 = isPlainObject_seen [OF p]
      show ?thesis
      proof (cases "plain \<and> a \<notin> seenObjects st1")
        case True
        with k obtain s where c: "convert d cfg h a st1 = (Inr s, st')"
          by (auto elim!: and_then_InrE)
        from "6.IH"(2) [OF JObject OrdinaryShape _ _ c] True seen1 show ?thesis by auto
      next
        case False
        with k have "st' = st1" by (auto elim!: and_then_InrE split: if_splits)
        with seen1 show ?thesis by simp
      qed
    qed
  qed (use "6.prems" in auto)
next
  case (7 d cfg h st)
  then show ?case by simp
next
  case (8 d cfg h x xs st)
  from "8.prems" obtain v st1 ws where
    hd: "encodeValue d cfg h x st = (Inr v, st1)" and
    tl: "encode_elements d cfg h xs st1 = (Inr ws, st')"
    by (auto elim!: and_then_InrE)
  from "8.IH"(1) [OF hd] "8.IH"(2) [OF tl] show ?case by simp
qed

text \<open>
  Claim C2. \<open>convert(obj)\<close> deletes \<open>obj\<close> from \<open>seenObjects\<close> after its loop, in no
  \<open>finally\<close>: when a field throws, the delete is skipped. Here a converter with
  \<open>removeCircular\<close> set converts \<open>o = {when: new Date(0)}\<close>, which throws because a date is not
  a plain object; \<open>o\<close> is then still in \<open>seenObjects\<close>, and the same converter encodes
  \<open>{inner: o}\<close>, which has no cycle, as \<open>{inner: '[Circular]'}\<close>, where a fresh converter
  throws as it did for \<open>o\<close>.
\<close>

theorem failed_convert_leaves_entry:
  "fst (convert (Suc (Suc (Suc 0))) remove_circular stale_entry 1 initial_state)
     = Inl (ThrowError ''Value of type object not recognized.'')
   \<and> 1 \<in> seenObjects (snd (convert (Suc (Suc (Suc 0))) remove_circular stale_entry 1 initial_state))
   \<and> fst (convert (Suc (Suc (Suc 0))) remove_circular stale_entry 3
          (snd (convert (Suc (Suc (Suc 0))) remove_circular stale_entry 1 initial_state)))
     = Inr (Obj [(''fields'', Obj [(''inner'', Obj [(''stringValue'', Val (JString ''[Circular]''))])])])
   \<and> fst (convert (Suc (Suc (Suc (Suc 0)))) remove_circular stale_entry 3 initial_state)
     = Inl (ThrowError ''Value of type object not recognized.'')"
  by (simp add: stale_entry_def remove_circular_def example_defs)

section \<open>The classifier's cache\<close>

lemma isPlainObject_cached:
  "plainCache st x = Some b \<Longrightarrow> isPlainObject h x st = (Inr b, st)"
  by (simp add: isPlainObject_def)

lemma isPlainObject_returns:
  assumes "isPlainObject h x st = (Inr b, st1)"
  shows "plainCache st1 x = Some b"
proof (cases "plainCache st x")
  case (Some c)
  with assms show ?thesis by (simp add: isPlainObject_def)
next
  case None
  with assms show ?thesis
    by (auto simp: isPlainObject_def remember_def and_then_eq_Inr split: proto.splits option.splits)
qed

lemma isPlainObject_cache_grows:
  assumes "isPlainObject h y st = (r, st1)" and "plainCache st x = Some b"
  shows "plainCache st1 x = Some b"
proof (cases "plainCache st y")
  case (Some c)
  with assms show ?thesis by (simp add: isPlainObject_def)
next
  case None
  with assms(2) have "x \<noteq> y" by auto
  show ?thesis
  proof (cases "proto (h y)")
    case (OtherProto c)
    show ?thesis
    proof (cases c)
      case (Some constr)
      with assms None OtherProto \<open>x \<noteq> y\<close> show ?thesis
        by (cases "constructor_test constr") (auto simp: isPlainObject_def remember_def)
    qed (use assms None OtherProto \<open>x \<noteq> y\<close> in \<open>auto simp: isPlainObject_def remember_def\<close>)
  qed (use assms None \<open>x \<noteq> y\<close> in \<open>auto simp: isPlainObject_def remember_def\<close>)
qed

lemma isPlainObject_other_entries:
  assumes "isPlainObject h x st = (r, st1)" and "y \<noteq> x"
  shows "plainCache st1 y = plainCache st y"
proof (cases "plainCache st x")
  case (Some c)
  with assms show ?thesis by (simp add: isPlainObject_def)
next
  case None
  show ?thesis
  proof (cases "proto (h x)")
    case (OtherProto c)
    show ?thesis
    proof (cases c)
      case (Some constr)
      with assms None OtherProto show ?thesis
        by (cases "constructor_test constr") (auto simp: isPlainObject_def remember_def)
    qed (use assms None OtherProto in \<open>auto simp: isPlainObject_def remember_def\<close>)
  qed (use assms None in \<open>auto simp: isPlainObject_def remember_def\<close>)
qed

text \<open>
  Claim C9. Once a call \<open>isPlainObject(x)\<close> has returned \<open>b\<close>, the cache holds \<open>b\<close> for
  \<open>x\<close> and is unchanged for every other object. A call for \<open>x\<close> in a state whose cache
  holds \<open>b\<close> for \<open>x\<close> returns \<open>b\<close> and leaves the state alone, whatever the heap looks
  like by then: the answer is read from the cache, not computed again. No call, for any
  object, removes or changes the entry of \<open>x\<close>. So every later call for \<open>x\<close> returns
  \<open>b\<close>. The cache is keyed by identity: in the example two objects with the same contents
  are classified separately.
\<close>

theorem isPlainObject_memoized:
  "isPlainObject h x st = (Inr b, st1) \<longrightarrow>
     plainCache st1 x = Some b
     \<and> (\<forall>y. y \<noteq> x \<longrightarrow> plainCache st1 y = plainCache st y)
     \<and> isPlainObject h' x st1 = (Inr b, st1)
     \<and> (\<forall>h'' st2. plainCache st2 x = Some b \<longrightarrow> isPlainObject h'' x st2 = (Inr b, st2))
     \<and> (\<forall>h'' y r st2 st3. plainCache st2 x = Some b \<and> isPlainObject h'' y st2 = (r, st3) \<longrightarrow>
           plainCache st3 x = Some b)"
proof (intro impI conjI allI)
  assume call: "isPlainObject h x st = (Inr b, st1)"
  then show entry: "plainCache st1 x = Some b" by (rule isPlainObject_returns)
  then show "isPlainObject h' x st1 = (Inr b, st1)" by (rule isPlainObject_cached)
  show "plainCache st1 y = plainCache st y" if "y \<noteq> x" for y
    using call that by (rule isPlainObject_other_entries)
  show "isPlainObject h'' x st2 = (Inr b, st2)" if "plainCache st2 x = Some b" for h'' :: "'c heap" and st2
    using that by (rule isPlainObject_cached)
  show "plainCache st3 x = Some b"
    if "plainCache st2 x = Some b \<and> isPlainObject h'' y st2 = (r, st3)" for h'' :: "'d heap" and y r st2 st3
    using that isPlainObject_cache_grows by blast
qed

theorem isPlainObject_memoized_witness:
  "fst (isPlainObject two_alike 1 initial_state) = Inr False
   \<and> plainCache (snd (isPlainObject two_alike 1 initial_state)) 1 = Some False
   \<and> plainCache (snd (isPlainObject two_alike 1 initial_state)) 2 = None
   \<and> fst (isPlainObject (heap_of []) 1 (snd (isPlainObject two_alike 1 initial_state))) = Inr False"
  using isPlainObject_memoized [of two_alike 1 initial_state False "snd (isPlainObject two_alike 1 initial_state)" "heap_of []"]
  by (simp add: two_alike_def example_defs)

section \<open>The dispatch of \<open>decodeValue\<close>\<close>

lemma decode_elements_list_all2:
  "decode_elements xs = Inr ys \<Longrightarrow> list_all2 (\<lambda>x y. decodeValue x = Inr y) xs ys"
proof (induction xs arbitrary: ys)
  case Nil
  then show ?case by simp
next
  case (Cons x xs)
  then show ?case by (auto split: sum.splits)
qed

text \<open>
  Claim C8, as stated, fails on its two examples: the objects written there carry no
  \<open>kind\<close>. Decoding \<open>{fields: {p: {structValue: {fields: {q: {numberValue: 5}}}}}}\<close> yields
  \<open>{p: undefined}\<close>, and decoding \<open>{listValue: {values: [{stringValue: 'a'}, {nullValue:
  0}]}}\<close> yields \<open>undefined\<close>.
\<close>

theorem decode_without_kind:
  "structToObj (Obj [(''fields'', Obj [(''p'', Obj [(''structValue'',
       Obj [(''fields'', Obj [(''q'', Obj [(''numberValue'', Val (JNumber (5::int)))])])])])])])
     = Inr (Obj [(''p'', Val JUndefined)])
   \<and> structToObj (Obj [(''fields'', Obj [(''p'', Obj [(''structValue'',
       Obj [(''fields'', Obj [(''q'', Obj [(''numberValue'', Val (JNumber (5::int)))])])])])])])
     \<noteq> Inr (Obj [(''p'', Obj [(''q'', Val (JNumber 5))])])
   \<and> decodeValue (Obj [(''listValue'', Obj [(''values'', Arr [Obj [(''stringValue'', Val (JString ''a''))],
       Obj [(''nullValue'', Val (JNumber (0::int)))]])])])
     = Inr (Val JUndefined)
   \<and> decodeValue (Obj [(''listValue'', Obj [(''values'', Arr [Obj [(''stringValue'', Val (JString ''a''))],
       Obj [(''nullValue'', Val (JNumber (0::int)))]])])])
     \<noteq> Inr (Arr [Val (JString ''a''), Val JNull])"
  by (simp add: decodeValue.simps structToObj.simps shadows_hasOwnProperty_def get_computed_def
       assign_def)

text \<open>
  Claim C8, amended. \<open>decodeValue\<close> dispatches on \<open>value.kind\<close>: for \<open>'structValue'\<close> it
  returns \<open>structToObj(value.structValue)\<close>, for \<open>'nullValue'\<close> it returns \<open>null\<close>, for
  \<open>'listValue'\<close> it decodes the elements of \<open>value.listValue.values\<close> in order (the
  exception of an element is the exception of the list), and for any other string \<open>k\<close> it
  returns \<open>value[k]\<close> as it is. Decoding
  \<open>{fields: {p: {kind: 'structValue', structValue: {fields: {q: {kind: 'numberValue',
  numberValue: 5}}}}}}\<close> yields \<open>{p: {q: 5}}\<close>, and decoding \<open>{kind: 'listValue', listValue:
  {values: [{kind: 'stringValue', stringValue: 'a'}, {kind: 'nullValue', nullValue: 0}]}}\<close>
  yields \<open>['a', null]\<close>.
\<close>

theorem decodeValue_dispatch:
  "(get v ''kind'' = Inr (Val (JString ''structValue'')) \<longrightarrow>
      decodeValue v = (case get v ''structValue'' of Inl e \<Rightarrow> Inl e | Inr s \<Rightarrow> structToObj s))
   \<and> (get v ''kind'' = Inr (Val (JString ''nullValue'')) \<longrightarrow> decodeValue v = Inr (Val JNull))
   \<and> (get v ''kind'' = Inr (Val (JString ''listValue'')) \<and> get v ''listValue'' = Inr lv \<and>
        get lv ''values'' = Inr (Arr xs) \<longrightarrow>
        (\<forall>e. decode_elements xs = Inl e \<longrightarrow> decodeValue v = Inl e) \<and>
        (\<forall>ys. decode_elements xs = Inr ys \<longrightarrow>
           decodeValue v = Inr (Arr ys) \<and> length ys = length xs \<and>
           (\<forall>i<length xs. decodeValue (xs ! i) = Inr (ys ! i))))
   \<and> (get v ''kind'' = Inr (Val (JString k)) \<and> k \<noteq> ''structValue'' \<and> k \<noteq> ''nullValue'' \<and>
        k \<noteq> ''listValue'' \<longrightarrow> decodeValue v = get v k)
   \<and> structToObj (Obj [(''fields'', Obj [(''p'', Obj [(''kind'', Val (JString ''structValue'')),
          (''structValue'', Obj [(''fields'', Obj [(''q'', Obj [(''kind'', Val (JString ''numberValue'')),
             (''numberValue'', Val (JNumber (5::int)))])])])])])])
       = Inr (Obj [(''p'', Obj [(''q'', Val (JNumber 5))])])
   \<and> decodeValue (Obj [(''kind'', Val (JString ''listValue'')),
          (''listValue'', Obj [(''values'', Arr [Obj [(''kind'', Val (JString ''stringValue'')),
             (''stringValue'', Val (JString ''a''))], Obj [(''kind'', Val (JString ''nullValue'')),
             (''nullValue'', Val (JNumber (0::int)))]])])])
       = Inr (Arr [Val (JString ''a''), Val JNull])"
proof (intro conjI impI allI)
  fix ys i
  assume "get v ''kind'' = Inr (Val (JString ''listValue'')) \<and> get v ''listValue'' = Inr lv \<and>
        get lv ''values'' = Inr (Arr xs)"
    and ys: "decode_elements xs = Inr ys"
  from decode_elements_list_all2 [OF ys] show "length ys = length xs"
    by (simp add: list_all2_lengthD)
  assume i: "i < length xs"
  from decode_elements_list_all2 [OF ys] i show "decodeValue (xs ! i) = Inr (ys ! i)"
    by (rule list_all2_nthD)
qed (simp_all add: decodeValue.simps structToObj.simps shadows_hasOwnProperty_def get_computed_def
       assign_def)

theorem decodeValue_dispatch_witness:
  "get (Obj [(''kind'', Val (JString ''boolValue'')), (''boolValue'', Val (JBool True :: int jsval))]) ''kind''
     = Inr (Val (JString ''boolValue''))
   \<and> decodeValue (Obj [(''kind'', Val (JString ''boolValue'')), (''boolValue'', Val (JBool True :: int jsval))])
     = Inr (Val (JBool True))
   \<and> decodeValue (Obj [(''kind'', Val (JString ''nullValue'')), (''nullValue'', Val (JNumber (0::int)))])
     = Inr (Val JNull)"
  using decodeValue_dispatch [of "Obj [(''kind'', Val (JString ''boolValue'')), (''boolValue'', Val (JBool True :: int jsval))]"
      "Val JNull" "[]" "''boolValue''"]
    decodeValue_dispatch [of "Obj [(''kind'', Val (JString ''nullValue'')), (''nullValue'', Val (JNumber (0::int)))]"
      "Val JNull" "[]" "''nullValue''"]
  by simp

section \<open>Decoding what the encoder returns\<close>

text \<open>
  Claim C1, as stated, fails. \<open>{a: 1}\<close> is plain data, \<open>convert\<close> returns
  \<open>{fields: {a: {numberValue: 1}}}\<close> for it, and \<open>structToObj\<close> applied to that result
  returns \<open>{a: undefined}\<close>, not \<open>{a: 1}\<close>: the tagged value has no \<open>kind\<close>, so
  \<open>decodeValue\<close> reads \<open>value[undefined]\<close>.
\<close>

theorem round_trip_without_kind:
  "plain_data one_number {} (JObject 1) (Obj [(''a'', Val (JNumber 1))])
   \<and> convert (Suc (Suc 0)) (constructor None) one_number 1 initial_state
       = (Inr (Obj [(''fields'', Obj [(''a'', Obj [(''numberValue'', Val (JNumber 1))])])]), initial_state)
   \<and> structToObj (Obj [(''fields'', Obj [(''a'', Obj [(''numberValue'', Val (JNumber (1::int)))])])])
       = Inr (Obj [(''a'', Val JUndefined)])
   \<and> structToObj (Obj [(''fields'', Obj [(''a'', Obj [(''numberValue'', Val (JNumber (1::int)))])])])
       \<noteq> Inr (Obj [(''a'', Val (JNumber 1))])"
proof (intro conjI)
  show "plain_data one_number {} (JObject 1) (Obj [(''a'', Val (JNumber 1))])"
    by (rule plain_data.object) (simp_all add: one_number_def example_defs plain_data.number)
  show "convert (Suc (Suc 0)) (constructor None) one_number 1 initial_state
       = (Inr (Obj [(''fields'', Obj [(''a'', Obj [(''numberValue'', Val (JNumber 1))])])]), initial_state)"
    by (simp add: one_number_def example_defs)
  show eq: "structToObj (Obj [(''fields'', Obj [(''a'', Obj [(''numberValue'', Val (JNumber (1::int)))])])])
       = Inr (Obj [(''a'', Val JUndefined)])"
    by (simp add: structToObj.simps decodeValue.simps shadows_hasOwnProperty_def get_computed_def assign_def)
  show "structToObj (Obj [(''fields'', Obj [(''a'', Obj [(''numberValue'', Val (JNumber (1::int)))])])])
       \<noteq> Inr (Obj [(''a'', Val (JNumber 1))])"
    by (simp add: eq)
qed

subsection \<open>The decoder on the encoding of a tree\<close>

lemma upsert_fresh: "k \<notin> fst ` set ps \<Longrightarrow> upsert k v ps = ps @ [(k, v)]"
  by (induction ps) auto

lemma assign_fresh: "k \<notin> fst ` set ps \<Longrightarrow> k \<noteq> ''__proto__'' \<Longrightarrow> assign ps k v = ps @ [(k, v)]"
  by (simp add: assign_def upsert_fresh)

lemma fields_with_kind_map: "fields_with_kind ps = map (map_prod id value_with_kind) ps"
  by (induction ps) auto

lemma values_with_kind_map: "values_with_kind xs = map value_with_kind xs"
  by (induction xs) auto

lemma map_of_map_prod:
  "distinct (map fst ps) \<Longrightarrow> (k, t) \<in> set ps \<Longrightarrow> map_of (map (map_prod id f) ps) k = Some (f t)"
  by (induction ps) (auto simp: rev_image_eqI)

lemma decode_elements_all:
  "list_all2 (\<lambda>e t. decodeValue e = Inr t) es ts \<Longrightarrow> decode_elements es = Inr ts"
  by (induction es ts rule: list_all2_induct) auto

lemma struct_loop_all:
  assumes "distinct (map fst F)" and "\<not> shadows_hasOwnProperty (Obj F)"
  shows "set qs \<subseteq> set F \<Longrightarrow> distinct (map fst qs) \<Longrightarrow> ''__proto__'' \<notin> fst ` set qs \<Longrightarrow>
     fst ` set acc \<inter> fst ` set qs = {} \<Longrightarrow>
     list_all2 (\<lambda>(k, e) (k', t). k = k' \<and> decodeValue e = Inr t) qs rs \<Longrightarrow>
     struct_loop (Obj F) (map fst qs) acc = Inr (acc @ rs)"
proof (induction qs arbitrary: acc rs)
  case Nil
  then show ?case by simp
next
  case (Cons q qs)
  obtain k e where q: "q = (k, e)" by (cases q)
  from Cons.prems(5) q obtain t rs' where rs: "rs = (k, t) # rs'" and
    dec: "decodeValue e = Inr t" and
    rest: "list_all2 (\<lambda>(k, e) (k', t). k = k' \<and> decodeValue e = Inr t) qs rs'"
    by (cases rs) auto
  from Cons.prems(1) q assms(1) have look: "map_of F k = Some e" by simp
  from Cons.prems(3,4) q have fresh: "k \<notin> fst ` set acc" "k \<noteq> ''__proto__''" by auto
  have "fst ` set (acc @ [(k, t)]) \<inter> fst ` set qs = {}"
    using Cons.prems(2,4) q by (auto simp: rev_image_eqI)
  with Cons.IH [of "acc @ [(k, t)]" rs'] Cons.prems rest q
  have "struct_loop (Obj F) (map fst qs) (acc @ [(k, t)]) = Inr ((acc @ [(k, t)]) @ rs')" by auto
  with assms(2) look dec fresh q rs show ?case by (simp add: assign_fresh)
qed

lemma list_all2_right: "list_all2 (\<lambda>x y. P x y \<and> Q y) xs ys \<Longrightarrow> \<forall>y \<in> set ys. Q y"
  by (induction xs ys rule: list_all2_induct) auto

lemma list_all2_map_prod:
  "\<forall>t \<in> snd ` set ps. decodeValue (f t) = Inr t \<Longrightarrow>
     list_all2 (\<lambda>(k, e) (k', t). k = k' \<and> decodeValue e = Inr t) (map (map_prod id f) ps) ps"
  by (induction ps) auto

lemma decode_struct_fields:
  assumes "distinct (map fst ps)" and "''hasOwnProperty'' \<notin> fst ` set ps"
    and "''__proto__'' \<notin> fst ` set ps"
    and "\<forall>t \<in> snd ` set ps. decodeValue (value_with_kind (encoded t)) = Inr t"
  shows "structToObj (Obj [(''fields'', Obj (fields_with_kind (map (map_prod id encoded) ps)))]) = Inr (Obj ps)"
proof -
  let ?F = "map (map_prod id (\<lambda>t. value_with_kind (encoded t))) ps"
  have F: "fields_with_kind (map (map_prod id encoded) ps) = ?F"
    by (auto simp: fields_with_kind_map)
  have keys: "map fst ?F = map fst ps" by simp
  have "struct_loop (Obj ?F) (map fst ?F) [] = Inr ([] @ ps)"
  proof (rule struct_loop_all)
    show "distinct (map fst ?F)" using assms(1) by (simp add: comp_def)
    show "\<not> shadows_hasOwnProperty (Obj ?F)"
      using assms(2) by (simp add: shadows_hasOwnProperty_def image_image)
    show "set ?F \<subseteq> set ?F" by simp
    show "distinct (map fst ?F)" using assms(1) by (simp add: comp_def)
    show "''__proto__'' \<notin> fst ` set ?F" using assms(3) by (simp add: image_image)
    show "fst ` set [] \<inter> fst ` set ?F = {}" by simp
    show "list_all2 (\<lambda>(k, e) (k', t). k = k' \<and> decodeValue e = Inr t) ?F ps"
      using assms(4) by (rule list_all2_map_prod)
  qed
  then show ?thesis by (simp add: structToObj.simps F)
qed

lemma decode_encoded:
  "plain_data h S v t \<Longrightarrow> decodeValue (value_with_kind (encoded t)) = Inr t"
proof (induction rule: plain_data.induct)
  case (null S)
  show ?case by (simp add: decodeValue.simps)
next
  case (bool S b)
  show ?case by (simp add: decodeValue.simps get_computed_def)
next
  case (number S n)
  show ?case by (simp add: decodeValue.simps get_computed_def)
next
  case (string S s)
  show ?case by (simp add: decodeValue.simps get_computed_def)
next
  case (bytes a bs S)
  show ?case by (simp add: decodeValue.simps get_computed_def)
next
  case (list a xs S ts)
  from list.IH have "\<forall>t \<in> set ts. decodeValue (value_with_kind (encoded t)) = Inr t"
    by (rule list_all2_right)
  then have "list_all2 (\<lambda>e t. decodeValue e = Inr t) (map (\<lambda>t. value_with_kind (encoded t)) ts) ts"
    by (induction ts) auto
  then have "decode_elements (values_with_kind (map encoded ts)) = Inr ts"
    by (simp add: values_with_kind_map comp_def decode_elements_all)
  then show ?case by (simp add: decodeValue.simps)
next
  case (object a S ps)
  from object.IH have "\<forall>t \<in> set (map snd ps). decodeValue (value_with_kind (encoded t)) = Inr t"
    by (rule list_all2_right)
  then have all: "\<forall>t \<in> snd ` set ps. decodeValue (value_with_kind (encoded t)) = Inr t" by simp
  from object.hyps have keys: "distinct (map fst ps)" "''hasOwnProperty'' \<notin> fst ` set ps"
    "''__proto__'' \<notin> fst ` set ps"
    by (metis, metis list.set_map, metis list.set_map)
  from decode_struct_fields [OF keys all] show ?case by (simp add: decodeValue.simps)
qed

subsection \<open>The encoder on plain data\<close>

lemma cache_agrees_seen [simp]: "cache_agrees h (st\<lparr>seenObjects := X\<rparr>) = cache_agrees h st"
  by (simp add: cache_agrees_def)

lemma cache_agrees_initial: "cache_agrees h initial_state"
  by (simp add: cache_agrees_def initial_state_def)

lemma isPlainObject_fresh:
  "plainCache st a = None \<Longrightarrow> fst (isPlainObject h a initial_state) = Inr b \<Longrightarrow>
     isPlainObject h a st = (Inr b, st\<lparr>plainCache := (plainCache st)(a \<mapsto> b)\<rparr>)"
  by (auto simp: isPlainObject_def initial_state_def remember_def and_then_def
      split: proto.splits option.splits sum.splits)

lemma isPlainObject_agrees:
  assumes "cache_agrees h st" and "fst (isPlainObject h a initial_state) = Inr b"
  shows "\<exists>st1. isPlainObject h a st = (Inr b, st1) \<and> seenObjects st1 = seenObjects st \<and>
           cache_agrees h st1"
proof (cases "plainCache st a")
  case None
  from isPlainObject_fresh [OF None assms(2)] assms show ?thesis
    by (auto simp: cache_agrees_def)
next
  case (Some c)
  with assms have "c = b" by (auto simp: cache_agrees_def)
  with Some assms(1) show ?thesis by (simp add: isPlainObject_cached)
qed

lemma plain_data_defined: "plain_data h S v t \<Longrightarrow> v \<noteq> JUndefined"
  by (induction rule: plain_data.induct) auto

lemma encodes_plainI:
  assumes "\<And>d st. N \<le> d \<Longrightarrow> seenObjects st = S \<Longrightarrow> cache_agrees h st \<Longrightarrow>
     \<exists>st'. encodeValue d cfg h v st = (Inr (encoded t), st') \<and> seenObjects st' = S \<and> cache_agrees h st'"
  shows "encodes_plain cfg h S v t"
  unfolding encodes_plain_def using assms by blast

lemma encodes_plain_leaf:
  assumes "\<And>d st. encodeValue (Suc d) cfg h v st = (Inr (encoded t), st)"
  shows "encodes_plain cfg h S v t"
proof (rule encodes_plainI [where N = 1])
  fix d :: nat and st :: enc_state
  assume "1 \<le> d" and "seenObjects st = S" and "cache_agrees h st"
  then obtain d' where "d = Suc d'" by (cases d) auto
  with assms \<open>seenObjects st = S\<close> \<open>cache_agrees h st\<close>
  show "\<exists>st'. encodeValue d cfg h v st = (Inr (encoded t), st') \<and> seenObjects st' = S \<and> cache_agrees h st'"
    by auto
qed

lemma encode_elements_plain:
  "list_all2 (encodes_plain cfg h S) xs ts \<Longrightarrow>
     \<exists>N. \<forall>d\<ge>N. \<forall>st. seenObjects st = S \<and> cache_agrees h st \<longrightarrow>
        (\<exists>st'. encode_elements d cfg h xs st = (Inr (map encoded ts), st') \<and>
           seenObjects st' = S \<and> cache_agrees h st')"
proof (induction xs ts rule: list_all2_induct)
  case Nil
  show ?case by simp
next
  case (Cons x xs t ts)
  from Cons.hyps(1) obtain N1 where
    hd: "\<And>d st. N1 \<le> d \<Longrightarrow> seenObjects st = S \<Longrightarrow> cache_agrees h st \<Longrightarrow>
       \<exists>st'. encodeValue d cfg h x st = (Inr (encoded t), st') \<and> seenObjects st' = S \<and> cache_agrees h st'"
    unfolding encodes_plain_def by blast
  from Cons.IH obtain N2 where
    tl: "\<And>d st. N2 \<le> d \<Longrightarrow> seenObjects st = S \<Longrightarrow> cache_agrees h st \<Longrightarrow>
       \<exists>st'. encode_elements d cfg h xs st = (Inr (map encoded ts), st') \<and> seenObjects st' = S \<and> cache_agrees h st'"
    by blast
  show ?case
  proof (intro exI [of _ "max N1 N2"] allI impI)
    fix d :: nat and st :: enc_state
    assume d: "max N1 N2 \<le> d" and st: "seenObjects st = S \<and> cache_agrees h st"
    from hd [of d st] d st obtain st1 where
      1: "encodeValue d cfg h x st = (Inr (encoded t), st1)" "seenObjects st1 = S" "cache_agrees h st1"
      by auto
    from tl [of d st1] d 1 obtain st2 where
      2: "encode_elements d cfg h xs st1 = (Inr (map encoded ts), st2)" "seenObjects st2 = S" "cache_agrees h st2"
      by auto
    from 1 2 show "\<exists>st'. encode_elements d cfg h (x # xs) st = (Inr (map encoded (t # ts)), st') \<and>
           seenObjects st' = S \<and> cache_agrees h st'"
      by simp
  qed
qed

lemma convert_loop_skip:
  "\<forall>k \<in> set ks. \<not> hasOwnProperty (h a) k \<Longrightarrow> convert_loop d cfg h a ks flds st = (Inr flds, st)"
  by (induction ks) auto

lemma get_own_member:
  "distinct (map fst (own_props ob)) \<Longrightarrow> (k, v) \<in> set (own_props ob) \<Longrightarrow> get_own ob k = v"
  by (simp add: get_own_def)

lemma hasOwnProperty_member: "(k, v) \<in> set (own_props ob) \<Longrightarrow> hasOwnProperty ob k"
  by (auto simp: hasOwnProperty_def rev_image_eqI)

lemma convert_loop_plain:
  assumes "distinct (map fst (own_props (h a)))" and "''__proto__'' \<notin> fst ` set (own_props (h a))"
    and "\<forall>k \<in> set inh. \<not> hasOwnProperty (h a) k"
  shows "set qs \<subseteq> set (own_props (h a)) \<Longrightarrow> distinct (map fst qs) \<Longrightarrow>
     list_all2 (\<lambda>(k, v) (k', t). k = k' \<and> v \<noteq> JUndefined \<and> encodes_plain cfg h S v t) qs rs \<Longrightarrow>
     \<exists>N. \<forall>d\<ge>N. \<forall>st flds. seenObjects st = S \<and> cache_agrees h st \<and>
            fst ` set flds \<inter> fst ` set qs = {} \<longrightarrow>
        (\<exists>st'. convert_loop d cfg h a (map fst qs @ inh) flds st =
             (Inr (flds @ map (map_prod id encoded) rs), st') \<and>
           seenObjects st' = S \<and> cache_agrees h st')"
proof (induction qs arbitrary: rs)
  case Nil
  then show ?case using assms(3) by (simp add: convert_loop_skip)
next
  case (Cons q qs)
  obtain k v where q: "q = (k, v)" by (cases q)
  from Cons.prems(3) q obtain t rs' where rs: "rs = (k, t) # rs'" and
    v: "v \<noteq> JUndefined" and enc: "encodes_plain cfg h S v t" and
    rest: "list_all2 (\<lambda>(k, v) (k', t). k = k' \<and> v \<noteq> JUndefined \<and> encodes_plain cfg h S v t) qs rs'"
    by (cases rs) auto
  from Cons.prems(1) q have mem: "(k, v) \<in> set (own_props (h a))" by simp
  note own = hasOwnProperty_member [OF mem] get_own_member [OF assms(1) mem]
  from mem assms(2) have proto: "k \<noteq> ''__proto__''" by (auto simp: rev_image_eqI)
  from enc obtain N1 where
    hd: "\<And>d st. N1 \<le> d \<Longrightarrow> seenObjects st = S \<Longrightarrow> cache_agrees h st \<Longrightarrow>
       \<exists>st'. encodeValue d cfg h v st = (Inr (encoded t), st') \<and> seenObjects st' = S \<and> cache_agrees h st'"
    unfolding encodes_plain_def by blast
  from Cons.prems(1,2) have sub: "set qs \<subseteq> set (own_props (h a))" "distinct (map fst qs)"
    by auto
  from Cons.IH [OF sub rest] obtain N2 where
    tl': "\<forall>d\<ge>N2. \<forall>st flds. seenObjects st = S \<and> cache_agrees h st \<and>
            fst ` set flds \<inter> fst ` set qs = {} \<longrightarrow>
        (\<exists>st'. convert_loop d cfg h a (map fst qs @ inh) flds st =
             (Inr (flds @ map (map_prod id encoded) rs'), st') \<and>
           seenObjects st' = S \<and> cache_agrees h st')" ..
  note tl = tl' [rule_format]
  show ?case
  proof (intro exI [of _ "max N1 N2"] allI impI)
    fix d :: nat and st :: enc_state and flds :: "(string \<times> 'a tree) list"
    assume d: "max N1 N2 \<le> d" and
      st: "seenObjects st = S \<and> cache_agrees h st \<and> fst ` set flds \<inter> fst ` set (q # qs) = {}"
    from hd [of d st] d st obtain st1 where
      1: "encodeValue d cfg h v st = (Inr (encoded t), st1)" "seenObjects st1 = S" "cache_agrees h st1"
      by auto
    from st q have fresh: "k \<notin> fst ` set flds" by auto
    have disj: "fst ` set (flds @ [(k, encoded t)]) \<inter> fst ` set qs = {}"
      using st Cons.prems(2) q by (auto simp: rev_image_eqI)
    from d have "N2 \<le> d" by simp
    from tl [OF this, of st1 "flds @ [(k, encoded t)]"] 1 disj obtain st2 where
      2: "convert_loop d cfg h a (map fst qs @ inh) (flds @ [(k, encoded t)]) st1 =
             (Inr ((flds @ [(k, encoded t)]) @ map (map_prod id encoded) rs'), st2)"
        "seenObjects st2 = S" "cache_agrees h st2"
      by auto
    from own v 1 2 fresh proto q rs
    show "\<exists>st'. convert_loop d cfg h a (map fst (q # qs) @ inh) flds st =
             (Inr (flds @ map (map_prod id encoded) rs), st') \<and>
           seenObjects st' = S \<and> cache_agrees h st'"
      by (simp add: assign_fresh)
  qed
qed

lemma list_all2_pairs:
  "map fst ps = map fst qs \<Longrightarrow> list_all2 P (map snd qs) (map snd ps) \<Longrightarrow>
     list_all2 (\<lambda>(k, v) (k', t). k = k' \<and> P v t) qs ps"
proof (induction qs arbitrary: ps)
  case Nil
  then show ?case by simp
next
  case (Cons q qs)
  then show ?case by (cases ps; cases q) auto
qed

lemma inherited_not_own:
  "\<forall>k \<in> set (filter (\<lambda>k. k \<notin> fst ` set (own_props ob)) (inherited_keys ob)). \<not> hasOwnProperty ob k"
  by (simp add: hasOwnProperty_def)

lemma convert_plain:
  assumes "distinct (map fst (own_props (h a)))" and "''__proto__'' \<notin> fst ` set (own_props (h a))"
    and "a \<notin> S" and "map fst ps = map fst (own_props (h a))"
    and "list_all2 (\<lambda>v t. v \<noteq> JUndefined \<and> encodes_plain cfg h (insert a S) v t)
           (map snd (own_props (h a))) (map snd ps)"
  shows "\<exists>N. \<forall>d\<ge>N. \<forall>st. seenObjects st = S \<and> cache_agrees h st \<longrightarrow>
        (\<exists>st'. convert d cfg h a st =
             (Inr (Obj [(''fields'', Obj (map (map_prod id encoded) ps))]), st') \<and>
           seenObjects st' = S \<and> cache_agrees h st')"
proof -
  let ?own = "own_props (h a)"
  let ?inh = "filter (\<lambda>k. k \<notin> fst ` set ?own) (inherited_keys (h a))"
  from list_all2_pairs [OF assms(4,5)]
  have "list_all2 (\<lambda>(k, v) (k', t). k = k' \<and> v \<noteq> JUndefined \<and> encodes_plain cfg h (insert a S) v t) ?own ps"
    by (rule list_all2_mono) auto
  from convert_loop_plain [OF assms(1,2) inherited_not_own subset_refl assms(1) this]
  obtain N where
    loop': "\<forall>d\<ge>N. \<forall>st flds. seenObjects st = insert a S \<and> cache_agrees h st \<and>
            fst ` set flds \<inter> fst ` set ?own = {} \<longrightarrow>
        (\<exists>st'. convert_loop d cfg h a (map fst ?own @ ?inh) flds st =
             (Inr (flds @ map (map_prod id encoded) ps), st') \<and>
           seenObjects st' = insert a S \<and> cache_agrees h st')" ..
  note loop = loop' [rule_format]
  show ?thesis
  proof (intro exI [of _ "Suc N"] allI impI)
    fix d :: nat and st :: enc_state
    assume d: "Suc N \<le> d" and st: "seenObjects st = S \<and> cache_agrees h st"
    then obtain d' where d': "d = Suc d'" "N \<le> d'" by (cases d) auto
    from loop [OF d'(2), of "st\<lparr>seenObjects := insert a (seenObjects st)\<rparr>" "[]"] st
    obtain st1 where
      1: "convert_loop d' cfg h a (map fst ?own @ ?inh) [] (st\<lparr>seenObjects := insert a (seenObjects st)\<rparr>) =
             (Inr (map (map_prod id encoded) ps), st1)"
        "seenObjects st1 = insert a S" "cache_agrees h st1"
      by auto
    from 1 d' assms(3)
    show "\<exists>st'. convert d cfg h a st =
             (Inr (Obj [(''fields'', Obj (map (map_prod id encoded) ps))]), st') \<and>
           seenObjects st' = S \<and> cache_agrees h st'"
      by (simp add: for_in_keys_def)
  qed
qed

lemma encode_plain_data: "plain_data h S v t \<Longrightarrow> encodes_plain cfg h S v t"
proof (induction rule: plain_data.induct)
  case (null S)
  show ?case by (rule encodes_plain_leaf) simp
next
  case (bool S b)
  show ?case by (rule encodes_plain_leaf) simp
next
  case (number S n)
  show ?case by (rule encodes_plain_leaf) simp
next
  case (string S s)
  show ?case by (rule encodes_plain_leaf) simp
next
  case (bytes a bs S)
  then show ?case by (intro encodes_plain_leaf) simp
next
  case (list a xs S ts)
  from list.IH have "list_all2 (encodes_plain cfg h S) xs ts"
    by (rule list_all2_mono) auto
  from encode_elements_plain [OF this] obtain N where
    el: "\<And>d st. N \<le> d \<Longrightarrow> seenObjects st = S \<Longrightarrow> cache_agrees h st \<Longrightarrow>
       \<exists>st'. encode_elements d cfg h xs st = (Inr (map encoded ts), st') \<and> seenObjects st' = S \<and> cache_agrees h st'"
    by blast
  show ?case
  proof (rule encodes_plainI [where N = "Suc N"])
    fix d :: nat and st :: enc_state
    assume "Suc N \<le> d" and st: "seenObjects st = S" "cache_agrees h st"
    then obtain d' where d': "d = Suc d'" "N \<le> d'" by (cases d) auto
    from el [OF d'(2) st] obtain st' where
      "encode_elements d' cfg h xs st = (Inr (map encoded ts), st')" "seenObjects st' = S" "cache_agrees h st'"
      by blast
    with list.hyps d' show "\<exists>st'. encodeValue d cfg h (JObject a) st = (Inr (encoded (Arr ts)), st') \<and>
        seenObjects st' = S \<and> cache_agrees h st'"
      by simp
  qed
next
  case (object a S ps)
  from object.IH
  have "list_all2 (\<lambda>v t. v \<noteq> JUndefined \<and> encodes_plain cfg h (insert a S) v t)
          (map snd (own_props (h a))) (map snd ps)"
    by (rule list_all2_mono) (auto dest: plain_data_defined)
  from convert_plain [OF object.hyps(4,5,3,7) this] obtain N where
    conv: "\<And>d st. N \<le> d \<Longrightarrow> seenObjects st = S \<Longrightarrow> cache_agrees h st \<Longrightarrow>
       \<exists>st'. convert d cfg h a st =
             (Inr (Obj [(''fields'', Obj (map (map_prod id encoded) ps))]), st') \<and>
           seenObjects st' = S \<and> cache_agrees h st'"
    by blast
  show ?case
  proof (rule encodes_plainI [where N = "Suc N"])
    fix d :: nat and st :: enc_state
    assume "Suc N \<le> d" and st: "seenObjects st = S" "cache_agrees h st"
    then obtain d' where d': "d = Suc d'" "N \<le> d'" by (cases d) auto
    from isPlainObject_agrees [OF st(2) object.hyps(2)] st(1) obtain st1 where
      1: "isPlainObject h a st = (Inr True, st1)" "seenObjects st1 = S" "cache_agrees h st1"
      by auto
    from conv [OF d'(2) 1(2,3)] obtain st' where
      2: "convert d' cfg h a st1 = (Inr (Obj [(''fields'', Obj (map (map_prod id encoded) ps))]), st')"
        "seenObjects st' = S" "cache_agrees h st'"
      by blast
    from object.hyps(1,3) d' 1 2
    show "\<exists>st'. encodeValue d cfg h (JObject a) st = (Inr (encoded (Obj ps)), st') \<and>
        seenObjects st' = S \<and> cache_agrees h st'"
      by simp
  qed
qed

subsection \<open>The round trip\<close>

text \<open>
  Claim C1, amended. Let \<open>obj\<close> be a plain object holding plain data with unfolding \<open>t\<close>.
  Let \<open>seenObjects\<close> of the converter be empty, and let the cache of \<open>isPlainObject\<close> agree
  with the heap: each of its entries is the classification that a first call would compute
  for that object on the present heap (an empty cache does). Then there is a stack depth
  from which on \<open>convert(obj)\<close> returns a struct \<open>s\<close> such that \<open>structToObj\<close>, applied to
  \<open>s\<close> with the \<open>kind\<close> of every tagged value added, returns \<open>t\<close>: the same keys in the
  same order with the same values, lists in order, buffers by reference. \<open>seenObjects\<close> is
  empty again afterwards.
\<close>

theorem round_trip_with_kind:
  assumes "plain_data h {} (JObject obj) t" and "shape (h obj) = OrdinaryShape"
    and "seenObjects st = {}" and "cache_agrees h st"
  shows "\<exists>N. \<forall>d\<ge>N. \<exists>s st'. convert d cfg h obj st = (Inr s, st') \<and>
           structToObj (struct_with_kind s) = Inr t \<and> seenObjects st' = {}"
proof -
  from assms(1,2) obtain ps where t: "t = Obj ps" and
    keys: "distinct (map fst (own_props (h obj)))" "''__proto__'' \<notin> fst ` set (own_props (h obj))"
      "''hasOwnProperty'' \<notin> fst ` set (own_props (h obj))" "map fst ps = map fst (own_props (h obj))" and
    kids: "list_all2 (plain_data h (insert obj {})) (map snd (own_props (h obj))) (map snd ps)"
    by (cases rule: plain_data.cases) auto
  from kids have "list_all2 (\<lambda>v t. v \<noteq> JUndefined \<and> encodes_plain cfg h (insert obj {}) v t)
          (map snd (own_props (h obj))) (map snd ps)"
    by (rule list_all2_mono) (auto dest: plain_data_defined encode_plain_data)
  from convert_plain [OF keys(1,2) _ keys(4) this] obtain N where
    conv': "\<forall>d\<ge>N. \<forall>st. seenObjects st = {} \<and> cache_agrees h st \<longrightarrow>
        (\<exists>st'. convert d cfg h obj st =
             (Inr (Obj [(''fields'', Obj (map (map_prod id encoded) ps))]), st') \<and>
           seenObjects st' = {} \<and> cache_agrees h st')"
    by blast
  from kids have "list_all2 (\<lambda>v t. plain_data h (insert obj {}) v t \<and>
       decodeValue (value_with_kind (encoded t)) = Inr t) (map snd (own_props (h obj))) (map snd ps)"
    by (rule list_all2_mono) (auto dest: decode_encoded)
  then have "\<forall>t \<in> set (map snd ps). decodeValue (value_with_kind (encoded t)) = Inr t"
    by (rule list_all2_right)
  then have all: "\<forall>t \<in> snd ` set ps. decodeValue (value_with_kind (encoded t)) = Inr t" by simp
  from keys have pkeys: "distinct (map fst ps)" "''hasOwnProperty'' \<notin> fst ` set ps"
    "''__proto__'' \<notin> fst ` set ps"
    by (metis, metis list.set_map, metis list.set_map)
  note dec = decode_struct_fields [OF pkeys all]
  show ?thesis
  proof (intro exI [of _ N] allI impI)
    fix d :: nat
    assume "N \<le> d"
    with conv' assms(3,4) obtain st' where
      "convert d cfg h obj st = (Inr (Obj [(''fields'', Obj (map (map_prod id encoded) ps))]), st')"
      "seenObjects st' = {}"
      by blast
    with dec t show "\<exists>s st'. convert d cfg h obj st = (Inr s, st') \<and>
           structToObj (struct_with_kind s) = Inr t \<and> seenObjects st' = {}"
      by simp
  qed
qed

lemma mixed_data_plain: "plain_data mixed_data {} (JObject 1) mixed_tree"
proof -
  have top: "shape (mixed_data 1) = OrdinaryShape"
    "own_props (mixed_data 1) = [(''n'', JNumber 5), (''s'', JString ''x''), (''z'', JNull),
       (''b'', JBool True), (''l'', JObject 2), (''o'', JObject 3), (''blob'', JObject 4)]"
    "fst (isPlainObject mixed_data 1 initial_state) = Inr True"
    by (simp_all add: mixed_data_def example_defs)
  have arr: "shape (mixed_data 2) = ArrayShape [JNumber 1, JString ''a'']"
    by (simp add: mixed_data_def example_defs)
  have inner: "shape (mixed_data 3) = OrdinaryShape" "own_props (mixed_data 3) = [(''q'', JNumber 5)]"
    "fst (isPlainObject mixed_data 3 initial_state) = Inr True"
    by (simp_all add: mixed_data_def example_defs)
  have buf: "shape (mixed_data 4) = BufferShape [1, 2]"
    by (simp add: mixed_data_def example_defs)
  have l: "plain_data mixed_data {1} (JObject 2) (Arr [Val (JNumber 1), Val (JString ''a'')])"
    by (rule plain_data.list [where xs = "[JNumber 1, JString ''a'']"]) (simp_all add: arr plain_data.intros)
  have o: "plain_data mixed_data {1} (JObject 3) (Obj [(''q'', Val (JNumber 5))])"
    by (rule plain_data.object) (simp_all add: inner plain_data.intros)
  have b: "plain_data mixed_data {1} (JObject 4) (Val (JObject 4))"
    by (rule plain_data.bytes [where bs = "[1, 2]"]) (simp add: buf)
  show ?thesis
    unfolding mixed_tree_def
    by (rule plain_data.object) (simp_all add: top l o b plain_data.intros del: One_nat_def)
qed

theorem round_trip_with_kind_witness:
  "plain_data mixed_data {} (JObject 1) mixed_tree
   \<and> shape (mixed_data 1) = OrdinaryShape
   \<and> seenObjects initial_state = {}
   \<and> cache_agrees mixed_data initial_state
   \<and> (\<exists>N. \<forall>d\<ge>N. \<exists>s st'. convert d (constructor None) mixed_data 1 initial_state = (Inr s, st') \<and>
           structToObj (struct_with_kind s) = Inr mixed_tree \<and> seenObjects st' = {})"
proof -
  have 1: "shape (mixed_data 1) = OrdinaryShape" by (simp add: mixed_data_def example_defs)
  have 2: "seenObjects initial_state = {}" by (simp add: initial_state_def)
  from round_trip_with_kind [OF mixed_data_plain 1 2 cache_agrees_initial, of "constructor None"]
    mixed_data_plain 1 2 cache_agrees_initial [of mixed_data]
  show ?thesis by (intro conjI)
qed

text \<open>
  The condition on the cache cannot be dropped. The cache is read before the prototype is
  looked at, so an entry that calls the inner object of the example not plain, left from a
  time when the heap was different, makes \<open>convert\<close> throw at every stack depth of three or
  more, although \<open>seenObjects\<close> is empty.
\<close>

lemma stale_cache_entry:
  "seenObjects (initial_state\<lparr>plainCache := (\<lambda>_. None)(3 \<mapsto> False)\<rparr>) = {}
   \<and> \<not> cache_agrees mixed_data (initial_state\<lparr>plainCache := (\<lambda>_. None)(3 \<mapsto> False)\<rparr>)
   \<and> fst (convert (Suc (Suc (Suc n))) (constructor None) mixed_data 1
          (initial_state\<lparr>plainCache := (\<lambda>_. None)(3 \<mapsto> False)\<rparr>))
       = Inl (ThrowError ''Value of type object not recognized.'')"
proof (intro conjI)
  show "seenObjects (initial_state\<lparr>plainCache := (\<lambda>_. None)(3 \<mapsto> False)\<rparr>) = {}"
    by (simp add: initial_state_def)
  have "fst (isPlainObject mixed_data 3 initial_state) = Inr True"
    by (simp add: mixed_data_def example_defs)
  then show "\<not> cache_agrees mixed_data (initial_state\<lparr>plainCache := (\<lambda>_. None)(3 \<mapsto> False)\<rparr>)"
    unfolding cache_agrees_def by (intro notI) (drule spec [of _ 3], drule spec [of _ False], simp)
  show "fst (convert (Suc (Suc (Suc n))) (constructor None) mixed_data 1
          (initial_state\<lparr>plainCache := (\<lambda>_. None)(3 \<mapsto> False)\<rparr>))
       = Inl (ThrowError ''Value of type object not recognized.'')"
    by (simp add: mixed_data_def example_defs)
qed

text \<open>
  The same on the example, computed at a stack depth of four; and the two keys that plain
  data excludes: a field named \<open>hasOwnProperty\<close> makes \<open>structToObj\<close> throw, and a field
  named \<open>__proto__\<close> is lost by \<open>convert\<close>.
\<close>

lemma mixed_data_evaluated:
  "\<exists>s st'. convert (Suc (Suc (Suc (Suc 0)))) (constructor None) mixed_data 1 initial_state = (Inr s, st') \<and>
     structToObj (struct_with_kind s) = Inr mixed_tree"
  by (simp add: mixed_data_def mixed_tree_def example_defs structToObj.simps decodeValue.simps
      shadows_hasOwnProperty_def get_computed_def)

lemma round_trip_key_exceptions:
  "convert (Suc (Suc 0)) (constructor None) shadowing_key 1 initial_state
     = (Inr (Obj [(''fields'', Obj [(''hasOwnProperty'', Obj [(''numberValue'', Val (JNumber 1))])])]), initial_state)
   \<and> structToObj (struct_with_kind
         (Obj [(''fields'', Obj [(''hasOwnProperty'', Obj [(''numberValue'', Val (JNumber (1::int)))])])]))
     = Inl TypeError
   \<and> convert (Suc (Suc 0)) (constructor None) shadowing_key 2 initial_state
     = (Inr (Obj [(''fields'', Obj [])]), initial_state)
   \<and> structToObj (struct_with_kind (Obj [(''fields'', Obj [])]) :: int tree) = Inr (Obj [])"
  by (simp add: shadowing_key_def example_defs structToObj.simps decodeValue.simps
      shadows_hasOwnProperty_def get_computed_def)

end
